theory Spec2Isabelle
  imports Complex_Main
begin

section \<open>Values, errors and the environment\<close>

text \<open>
  Python values as they come out of \<^verbatim>\<open>response.json()\<close> and as the catalog stores
  them. A dict keeps its keys in insertion order, so it is an association list.
  Floats do not occur in the metadata the program handles and are left out.
\<close>

datatype pyval =
    PNone
  | PBool bool
  | PInt int
  | PStr string
  | PList "pyval list"
  | PDict "(string \<times> pyval) list"

text \<open>The exceptions the modelled code can raise.\<close>

datatype error =
    RequestError int
  | TransportError
  | JSONDecodeError
  | KeyError
  | IndexError
  | TypeError
  | AttributeError
  | FileNotFoundError
  | ValueError

text \<open>What \<^verbatim>\<open>requests.get\<close> hands back: the status, the body, and what
  \<^verbatim>\<open>response.json()\<close> gives for that body (\<open>None\<close> when it raises).\<close>

record response =
  status_code :: int
  content :: string
  json_body :: "pyval option"

record date =
  year :: int
  month :: int
  day :: int

text \<open>
  The world outside the program. \<open>now\<close> is the wall clock in seconds (a float in
  the source, a real here); \<open>elapse k\<close> is the time that passes before the
  \<open>k\<close>-th reading of the clock; \<open>server n url\<close> is the reply to the \<open>n\<close>-th
  request (\<open>None\<close> when \<^verbatim>\<open>requests.get\<close> itself raises); \<open>calendar\<close> turns a
  timestamp into the local date; \<open>files\<close> is the file system.
\<close>

record world =
  now :: real
  elapse :: "nat \<Rightarrow> real"
  reads :: nat
  server :: "nat \<Rightarrow> string \<Rightarrow> response option"
  sent :: nat
  calendar :: "real \<Rightarrow> date"
  files :: "string \<Rightarrow> string option"

definition time_time :: "world \<Rightarrow> real \<times> world" where
  "time_time w =
     (let t = now w + elapse w (reads w)
      in (t, w\<lparr>now := t, reads := Suc (reads w)\<rparr>))"

definition time_sleep :: "real \<Rightarrow> world \<Rightarrow> world" where
  "time_sleep d w = w\<lparr>now := now w + d\<rparr>"

definition requests_get :: "string \<Rightarrow> world \<Rightarrow> response option \<times> world" where
  "requests_get url w = (server w (sent w) url, w\<lparr>sent := Suc (sent w)\<rparr>)"

section \<open>ApiClient.py: the rate-limited client\<close>

record client =
  apiKey :: string
  requestLimit :: int
  dataLimit :: int
  errorLimit :: int
  requestsMade :: int
  dataReceived :: int
  errorsMade :: int
  lastReset :: real

definition init :: "string \<Rightarrow> int \<Rightarrow> int \<Rightarrow> int \<Rightarrow> world \<Rightarrow> client \<times> world" where
  "init key reqLimit dataLimitMb errLimit w =
     (let (t, w') = time_time w
      in (\<lparr>apiKey = key,
           requestLimit = reqLimit,
           dataLimit = dataLimitMb * 1024 * 1024,
           errorLimit = errLimit,
           requestsMade = 0,
           dataReceived = 0,
           errorsMade = 0,
           lastReset = t\<rparr>, w'))"

definition resetCounters :: "client \<Rightarrow> world \<Rightarrow> client \<times> world" where
  "resetCounters c w =
     (let (currentTime, w') = time_time w
      in if currentTime - lastReset c > 60
         then (c\<lparr>requestsMade := 0, dataReceived := 0, errorsMade := 0,
                 lastReset := currentTime\<rparr>, w')
         else (c, w'))"

text \<open>The condition of the \<^verbatim>\<open>while\<close> loop of \<^verbatim>\<open>checkLimits\<close>.\<close>

definition limitsExceeded :: "client \<Rightarrow> bool" where
  "limitsExceeded c \<longleftrightarrow>
     requestsMade c \<ge> requestLimit c \<or> dataReceived c \<ge> dataLimit c
       \<or> errorsMade c \<ge> errorLimit c"

text \<open>One pass through the body of that loop.\<close>

definition waitStep :: "client \<Rightarrow> world \<Rightarrow> client \<times> world" where
  "waitStep c w =
     (let (t, w1) = time_time w;
          timeToWait = 60 - (t - lastReset c);
          w2 = (if timeToWait > 0 then time_sleep timeToWait w1 else w1)
      in resetCounters c w2)"

text \<open>The loop itself. It may run forever, which is the value \<open>None\<close>.\<close>

partial_function (option) waitLoop :: "client \<Rightarrow> world \<Rightarrow> (client \<times> world) option" where
  "waitLoop c w =
     (if limitsExceeded c
      then waitLoop (fst (waitStep c w)) (snd (waitStep c w))
      else Some (c, w))"

text \<open>Lines 85 to 96 of \<^verbatim>\<open>checkLimits\<close>: the reset check and the loop. The state
  it returns is the one in which the request is issued.\<close>

definition awaitCapacity :: "client \<Rightarrow> world \<Rightarrow> (client \<times> world) option" where
  "awaitCapacity c w = (case resetCounters c w of (c0, w0) \<Rightarrow> waitLoop c0 w0)"

text \<open>Lines 99 to 112: the request and the bookkeeping after it.\<close>

definition issueRequest ::
  "client \<Rightarrow> world \<Rightarrow> string \<Rightarrow> (error + pyval) \<times> client \<times> world" where
  "issueRequest c w url =
     (case requests_get url w of
        (None, w') \<Rightarrow> (Inl TransportError, c, w')
      | (Some r, w') \<Rightarrow>
          (let dataSize = int (length (content r));
               c' = c\<lparr>requestsMade := requestsMade c + 1,
                       dataReceived := dataReceived c + dataSize\<rparr>
           in if status_code r \<noteq> 200
              then (Inl (RequestError (status_code r)),
                    c'\<lparr>errorsMade := errorsMade c' + 1\<rparr>, w')
              else (case json_body r of
                      None \<Rightarrow> (Inl JSONDecodeError, c', w')
                    | Some j \<Rightarrow> (Inr j, c', w'))))"

definition checkLimits ::
  "client \<Rightarrow> world \<Rightarrow> string \<Rightarrow> ((error + pyval) \<times> client \<times> world) option" where
  "checkLimits c w url =
     (case awaitCapacity c w of
        None \<Rightarrow> None
      | Some (c1, w1) \<Rightarrow> Some (issueRequest c1 w1 url))"

definition sendRequest ::
  "client \<Rightarrow> world \<Rightarrow> string \<Rightarrow> ((error + pyval) \<times> client \<times> world) option" where
  "sendRequest c w url = checkLimits c w url"

text \<open>The caller's view of a run of calls: \<^verbatim>\<open>sendRequest\<close> once for each url in
  turn, on the one client, whatever each call returns or raises. The first
  component collects, for each call, the client as it is when the request is
  issued.\<close>

fun fetches ::
  "client \<Rightarrow> world \<Rightarrow> string list \<Rightarrow> (client list \<times> client \<times> world) option" where
  "fetches c w [] = Some ([], c, w)"
| "fetches c w (url # urls) =
     (case awaitCapacity c w of
        None \<Rightarrow> None
      | Some (g, wg) \<Rightarrow>
          (case issueRequest g wg url of
             (r, c1, w1) \<Rightarrow>
               (case fetches c1 w1 urls of
                  None \<Rightarrow> None
                | Some (gs, c2, w2) \<Rightarrow> Some (g # gs, c2, w2))))"

text \<open>The same run, seen at the other end of each call: the client as it is
  when \<^verbatim>\<open>sendRequest\<close> is entered, before the reset check.\<close>

fun entries :: "client \<Rightarrow> world \<Rightarrow> string list \<Rightarrow> client list option" where
  "entries c w [] = Some []"
| "entries c w (url # urls) =
     (case sendRequest c w url of
        None \<Rightarrow> None
      | Some (r, c1, w1) \<Rightarrow>
          (case entries c1 w1 urls of
             None \<Rightarrow> None
           | Some cs \<Rightarrow> Some (c # cs)))"

definition sameLimits :: "client \<Rightarrow> client \<Rightarrow> bool" where
  "sameLimits c c' \<longleftrightarrow>
     requestLimit c' = requestLimit c \<and> dataLimit c' = dataLimit c \<and>
     errorLimit c' = errorLimit c \<and> apiKey c' = apiKey c"

definition countersZero :: "client \<Rightarrow> bool" where
  "countersZero c \<longleftrightarrow> requestsMade c = 0 \<and> dataReceived c = 0 \<and> errorsMade c = 0"

subsection \<open>Sample inputs\<close>

text \<open>A world whose clock advances one second before every reading and whose
  server answers every request with an empty JSON object.\<close>

definition okResponse :: response where
  "okResponse = \<lparr>status_code = 200, content = ''{}'', json_body = Some (PDict [])\<rparr>"

definition sampleWorld :: world where
  "sampleWorld =
     \<lparr>now = 0, elapse = (\<lambda>k. 1), reads = 0,
      server = (\<lambda>n url. Some okResponse), sent = 0,
      calendar = (\<lambda>t. \<lparr>year = 2024, month = 4, day = 10\<rparr>),
      files = (\<lambda>name. None)\<rparr>"

text \<open>The default client one byte and one request short of its budgets, the same
  client with its request budget used up, and a client configured with a request
  limit of zero.\<close>

definition nearlyFullClient :: client where
  "nearlyFullClient =
     \<lparr>apiKey = ''KEY'', requestLimit = 100, dataLimit = 104857600, errorLimit = 30,
      requestsMade = 99, dataReceived = 104857599, errorsMade = 0, lastReset = 0\<rparr>"

definition fullClient :: client where
  "fullClient = nearlyFullClient\<lparr>requestsMade := 100\<rparr>"

definition zeroLimitClient :: client where
  "zeroLimitClient = nearlyFullClient\<lparr>requestLimit := 0, requestsMade := 0\<rparr>"

text \<open>The same world with a server that answers every request with status 503.\<close>

definition errorWorld :: world where
  "errorWorld = sampleWorld\<lparr>server := (\<lambda>n url. Some (okResponse\<lparr>status_code := 503\<rparr>))\<rparr>"

section \<open>beaData.py: the dataset object\<close>

text \<open>
  A \<^verbatim>\<open>BeaDataSet\<close> object. Python does not type its attributes: the builder
  stores lists in the eight list attributes, the cache reader stores whatever
  \<^verbatim>\<open>eval\<close> returned, so each attribute is a Python value.
\<close>

record beaDataSet =
  dataSetName :: pyval
  dataSetDescription :: pyval
  parameters :: pyval
  parametersDescriptions :: pyval
  parametersRequiredInRequest :: pyval
  parametersDefaultValues :: pyval
  parametersMultipleValsAcceptedInRequest :: pyval
  parametersAllValueRequest :: pyval
  parameterInputs :: pyval
  parameterInputsDescriptions :: pyval
  urlParamInputs :: "(string \<times> pyval) list"

definition BeaDataSet :: "pyval \<Rightarrow> pyval \<Rightarrow> beaDataSet" where
  "BeaDataSet name description =
     \<lparr>dataSetName = name,
      dataSetDescription = description,
      parameters = PList [],
      parametersDescriptions = PList [],
      parametersRequiredInRequest = PList [],
      parametersDefaultValues = PList [],
      parametersMultipleValsAcceptedInRequest = PList [],
      parametersAllValueRequest = PList [],
      parameterInputs = PList [],
      parameterInputsDescriptions = PList [],
      urlParamInputs = []\<rparr>"

text \<open>The attribute as a list. The builder calls \<^verbatim>\<open>updateParametersLists\<close> on
  lists only; for any other value the model stops with a \<open>TypeError\<close> and does not
  follow what Python does type by type.\<close>

definition asList :: "pyval \<Rightarrow> error + pyval list" where
  "asList v = (case v of PList xs \<Rightarrow> Inr xs | _ \<Rightarrow> Inl TypeError)"

definition isOne :: "pyval \<Rightarrow> pyval" where
  "isOne v = PBool (v = PStr ''1'')"

definition emptyToNa :: "pyval \<Rightarrow> pyval" where
  "emptyToNa v = (if v = PStr '''' then PStr ''N/a'' else v)"

text \<open>Both loops run over the length of one list and index a second one with
  the same index, which raises when the second list is the shorter one.\<close>

definition updateParametersLists :: "beaDataSet \<Rightarrow> error + beaDataSet" where
  "updateParametersLists d =
     (case asList (parametersRequiredInRequest d) of Inl e \<Rightarrow> Inl e | Inr req \<Rightarrow>
      if req = [] then
        (case asList (parametersAllValueRequest d) of Inl e \<Rightarrow> Inl e | Inr allv \<Rightarrow>
         if allv = [] then Inr d else
         (case asList (parametersDefaultValues d) of Inl e \<Rightarrow> Inl e | Inr dflt \<Rightarrow>
          if length dflt < length allv then Inl IndexError
          else Inr (d\<lparr>parametersAllValueRequest := PList (map emptyToNa allv),
                      parametersDefaultValues :=
                        PList (map emptyToNa (take (length allv) dflt)
                               @ drop (length allv) dflt)\<rparr>)))
      else
      (case asList (parametersMultipleValsAcceptedInRequest d) of Inl e \<Rightarrow> Inl e | Inr mult \<Rightarrow>
       if length mult < length req then Inl IndexError else
       (let d1 = d\<lparr>parametersRequiredInRequest := PList (map isOne req),
                    parametersMultipleValsAcceptedInRequest :=
                      PList (map isOne (take (length req) mult) @ drop (length req) mult)\<rparr>
        in case asList (parametersAllValueRequest d1) of Inl e \<Rightarrow> Inl e | Inr allv \<Rightarrow>
           if allv = [] then Inr d1 else
           (case asList (parametersDefaultValues d1) of Inl e \<Rightarrow> Inl e | Inr dflt \<Rightarrow>
            if length dflt < length allv then Inl IndexError
            else Inr (d1\<lparr>parametersAllValueRequest := PList (map emptyToNa allv),
                         parametersDefaultValues :=
                           PList (map emptyToNa (take (length allv) dflt)
                                  @ drop (length allv) dflt)\<rparr>)))))"

section \<open>downloadBeaDatasets.py: building the catalog\<close>

subsection \<open>Python operations on values\<close>

text \<open>\<^verbatim>\<open>str(v)\<close>, as f-strings and \<^verbatim>\<open>str\<close> apply it. A string is itself; for any
  other value it is the interpreter's \<^verbatim>\<open>repr\<close>, which the model takes as the
  parameter \<open>rp\<close>.\<close>

definition py_str :: "(pyval \<Rightarrow> string) \<Rightarrow> pyval \<Rightarrow> string" where
  "py_str rp v = (case v of PStr s \<Rightarrow> s | _ \<Rightarrow> rp v)"

text \<open>\<^verbatim>\<open>d.get(key, default)\<close>: only a dict has the method.\<close>

definition dict_get :: "pyval \<Rightarrow> string \<Rightarrow> pyval \<Rightarrow> error + pyval" where
  "dict_get d k dflt =
     (case d of
        PDict kvs \<Rightarrow> Inr (case map_of kvs k of Some v \<Rightarrow> v | None \<Rightarrow> dflt)
      | _ \<Rightarrow> Inl AttributeError)"

text \<open>\<^verbatim>\<open>v[key]\<close> with a string key.\<close>

definition subscript :: "pyval \<Rightarrow> string \<Rightarrow> error + pyval" where
  "subscript v k =
     (case v of
        PDict kvs \<Rightarrow> (case map_of kvs k of Some x \<Rightarrow> Inr x | None \<Rightarrow> Inl KeyError)
      | _ \<Rightarrow> Inl TypeError)"

text \<open>\<^verbatim>\<open>list(v.keys())\<close>.\<close>

definition dict_keys :: "pyval \<Rightarrow> error + string list" where
  "dict_keys v = (case v of PDict kvs \<Rightarrow> Inr (map fst kvs) | _ \<Rightarrow> Inl AttributeError)"

text \<open>\<^verbatim>\<open>xs[i]\<close> on a list.\<close>

definition list_index :: "'a list \<Rightarrow> nat \<Rightarrow> error + 'a" where
  "list_index xs i = (if i < length xs then Inr (xs ! i) else Inl IndexError)"

text \<open>What a \<^verbatim>\<open>for\<close> loop iterates over: the items of a list, the keys of a dict,
  the characters of a string; nothing else is iterable.\<close>

definition py_iter :: "pyval \<Rightarrow> error + pyval list" where
  "py_iter v =
     (case v of
        PList xs \<Rightarrow> Inr xs
      | PDict kvs \<Rightarrow> Inr (map (\<lambda>kv. PStr (fst kv)) kvs)
      | PStr s \<Rightarrow> Inr (map (\<lambda>ch. PStr [ch]) s)
      | _ \<Rightarrow> Inl TypeError)"

text \<open>A loop body run over a list, stopping at the first exception.\<close>

fun mapE :: "('a \<Rightarrow> error + 'b) \<Rightarrow> 'a list \<Rightarrow> error + 'b list" where
  "mapE f [] = Inr []"
| "mapE f (x # xs) =
     (case f x of
        Inl e \<Rightarrow> Inl e
      | Inr y \<Rightarrow> (case mapE f xs of Inl e \<Rightarrow> Inl e | Inr ys \<Rightarrow> Inr (y # ys)))"

subsection \<open>The extraction helpers\<close>

definition ensureResponseIsList :: "pyval \<Rightarrow> pyval list" where
  "ensureResponseIsList v =
     (case v of PDict kvs \<Rightarrow> [PDict kvs] | PList xs \<Rightarrow> xs | _ \<Rightarrow> [])"

text \<open>One pass of the loop of \<^verbatim>\<open>extractParamInfo\<close>: the six values appended.\<close>

definition paramRow ::
  "pyval \<Rightarrow> error + (pyval \<times> pyval \<times> pyval \<times> pyval \<times> pyval \<times> pyval)" where
  "paramRow param =
     (case dict_get param ''ParameterName'' (PStr ''N/A'') of Inl e \<Rightarrow> Inl e | Inr a \<Rightarrow>
      case dict_get param ''ParameterDescription'' (PStr ''N/A'') of Inl e \<Rightarrow> Inl e | Inr b \<Rightarrow>
      case dict_get param ''ParameterIsRequiredFlag'' (PStr ''N/A'') of Inl e \<Rightarrow> Inl e | Inr c \<Rightarrow>
      case dict_get param ''ParameterDefaultValue'' (PStr ''N/a'') of Inl e \<Rightarrow> Inl e | Inr d \<Rightarrow>
      case dict_get param ''MultipleAcceptedFlag'' (PStr ''N/a'') of Inl e \<Rightarrow> Inl e | Inr m \<Rightarrow>
      case dict_get param ''AllValue'' (PStr ''N/a'') of Inl e \<Rightarrow> Inl e | Inr v \<Rightarrow>
      Inr (a, b, c, d, m, v))"

definition extractParamInfo ::
  "pyval \<Rightarrow> error + (pyval list \<times> pyval list \<times> pyval list \<times> pyval list
                     \<times> pyval list \<times> pyval list)" where
  "extractParamInfo params =
     (case mapE paramRow (ensureResponseIsList params) of
        Inl e \<Rightarrow> Inl e
      | Inr rows \<Rightarrow>
          Inr (map (\<lambda>(a, b, c, d, m, v). a) rows,
               map (\<lambda>(a, b, c, d, m, v). b) rows,
               map (\<lambda>(a, b, c, d, m, v). c) rows,
               map (\<lambda>(a, b, c, d, m, v). d) rows,
               map (\<lambda>(a, b, c, d, m, v). m) rows,
               map (\<lambda>(a, b, c, d, m, v). v) rows))"

definition dataSetRow :: "pyval \<Rightarrow> error + (pyval \<times> pyval)" where
  "dataSetRow dataSet =
     (case dict_get dataSet ''DatasetName'' (PStr ''N/A'') of Inl e \<Rightarrow> Inl e | Inr a \<Rightarrow>
      case dict_get dataSet ''DatasetDescription'' (PStr ''N/A'') of Inl e \<Rightarrow> Inl e | Inr b \<Rightarrow>
      Inr (a, b))"

text \<open>\<^verbatim>\<open>extractDataSets\<close> iterates its argument as it is.\<close>

definition extractDataSets :: "pyval \<Rightarrow> error + (pyval list \<times> pyval list)" where
  "extractDataSets dataSets =
     (case py_iter dataSets of
        Inl e \<Rightarrow> Inl e
      | Inr items \<Rightarrow>
          (case mapE dataSetRow items of
             Inl e \<Rightarrow> Inl e
           | Inr rows \<Rightarrow> Inr (map fst rows, map snd rows)))"

definition isSpecialYear :: "pyval \<Rightarrow> pyval \<Rightarrow> bool" where
  "isSpecialYear dsName prmName \<longleftrightarrow>
     dsName \<in> set [PStr ''NIPA'', PStr ''NIUnderlyingDetail'', PStr ''FixedAssets'']
       \<and> prmName = PStr ''Year''"

text \<open>\<^verbatim>\<open>inputs[i][inputsKeys[k]]\<close>: the key is looked up in the list of keys
  first, then in the entry.\<close>

definition entryAt :: "string list \<Rightarrow> pyval \<Rightarrow> nat \<Rightarrow> error + pyval" where
  "entryAt inputsKeys entry k =
     (case list_index inputsKeys k of Inl e \<Rightarrow> Inl e | Inr key \<Rightarrow> subscript entry key)"

text \<open>One pass of the loop of the \<open>Year\<close> branch.\<close>

definition yearRow ::
  "(pyval \<Rightarrow> string) \<Rightarrow> string list \<Rightarrow> pyval \<Rightarrow> error + (pyval \<times> pyval)" where
  "yearRow rp inputsKeys entry =
     (case entryAt inputsKeys entry 0 of Inl e \<Rightarrow> Inl e | Inr tableName \<Rightarrow>
      case entryAt inputsKeys entry 1 of Inl e \<Rightarrow> Inl e | Inr a1 \<Rightarrow>
      case entryAt inputsKeys entry 2 of Inl e \<Rightarrow> Inl e | Inr a2 \<Rightarrow>
      case entryAt inputsKeys entry 3 of Inl e \<Rightarrow> Inl e | Inr q1 \<Rightarrow>
      case entryAt inputsKeys entry 4 of Inl e \<Rightarrow> Inl e | Inr q2 \<Rightarrow>
      case entryAt inputsKeys entry 5 of Inl e \<Rightarrow> Inl e | Inr m1 \<Rightarrow>
      case entryAt inputsKeys entry 6 of Inl e \<Rightarrow> Inl e | Inr m2 \<Rightarrow>
      Inr (PDict [(''TableName'', tableName),
                  (''Annual year Range'', PStr (py_str rp a1 @ ''-'' @ py_str rp a2)),
                  (''Quarterly Year Range'', PStr (py_str rp q1 @ ''-'' @ py_str rp q2)),
                  (''Monthly Year Range'', PStr (py_str rp m1 @ ''-'' @ py_str rp m2))],
           PStr (''Year ranges for annual, quarterly, and monthly data from table: ''
                 @ py_str rp tableName)))"

text \<open>One pass of the loop of the default branch.\<close>

definition plainRow :: "string list \<Rightarrow> pyval \<Rightarrow> error + (pyval \<times> pyval)" where
  "plainRow inputsKeys entry =
     (case entryAt inputsKeys entry 0 of Inl e \<Rightarrow> Inl e | Inr v \<Rightarrow>
      case entryAt inputsKeys entry 1 of Inl e \<Rightarrow> Inl e | Inr d \<Rightarrow>
      Inr (v, d))"

definition extractValidInputs ::
  "(pyval \<Rightarrow> string) \<Rightarrow> pyval \<Rightarrow> pyval \<Rightarrow> pyval \<Rightarrow> error + (pyval list \<times> pyval list)" where
  "extractValidInputs rp inputs dsName prmName =
     (let inputs = ensureResponseIsList inputs in
      if isSpecialYear dsName prmName then
        (case list_index inputs 0 of Inl e \<Rightarrow> Inl e | Inr first \<Rightarrow>
         case dict_keys first of Inl e \<Rightarrow> Inl e | Inr inputsKeys \<Rightarrow>
         case mapE (yearRow rp inputsKeys) inputs of
           Inl e \<Rightarrow> Inl e
         | Inr rows \<Rightarrow> Inr (map fst rows, map snd rows))
      else
        (case list_index inputs 0 of Inl e \<Rightarrow> Inl e | Inr first \<Rightarrow>
         case dict_keys first of Inl e \<Rightarrow> Inl e | Inr inputsKeys \<Rightarrow>
         case mapE (plainRow inputsKeys) inputs of
           Inl e \<Rightarrow> Inl e
         | Inr rows \<Rightarrow> Inr (map fst rows, map snd rows)))"

subsection \<open>The build\<close>

definition allDatasetsUrl :: "client \<Rightarrow> string" where
  "allDatasetsUrl c =
     ''http://apps.bea.gov/api/data?&UserID='' @ apiKey c
       @ ''&method=GETDATASETLIST&ResultFormat=JSON''"

definition parameterListUrl :: "(pyval \<Rightarrow> string) \<Rightarrow> client \<Rightarrow> pyval \<Rightarrow> string" where
  "parameterListUrl rp c name =
     ''https://apps.bea.gov/api/data?&UserID='' @ apiKey c
       @ ''&method=getparameterlist&datasetname='' @ py_str rp name
       @ ''&ResultFormat=JSON''"

definition paramInputValuesUrl ::
  "(pyval \<Rightarrow> string) \<Rightarrow> client \<Rightarrow> pyval \<Rightarrow> pyval \<Rightarrow> string" where
  "paramInputValuesUrl rp c name prm =
     ''https://apps.bea.gov/api/data?&UserID='' @ apiKey c
       @ ''&method=GetParameterValues&datasetname='' @ py_str rp name
       @ ''&ParameterName='' @ py_str rp prm @ ''&ResultFormat=JSON''"

text \<open>\<^verbatim>\<open>response['BEAAPI']['Results'][key]\<close>.\<close>

definition resultsField :: "pyval \<Rightarrow> string \<Rightarrow> error + pyval" where
  "resultsField resp key =
     (case subscript resp ''BEAAPI'' of Inl e \<Rightarrow> Inl e | Inr a \<Rightarrow>
      case subscript a ''Results'' of Inl e \<Rightarrow> Inl e | Inr b \<Rightarrow>
      subscript b key)"

text \<open>The inner loop of \<^verbatim>\<open>downloadBeaDatasets\<close>, over the parameter names of one
  dataset: one request each, the valid inputs and their descriptions appended.\<close>

fun fetchParameterInputs ::
  "(pyval \<Rightarrow> string) \<Rightarrow> pyval \<Rightarrow> pyval list \<Rightarrow> client \<Rightarrow> world
     \<Rightarrow> ((error + (pyval list \<times> pyval list)) \<times> client \<times> world) option" where
  "fetchParameterInputs rp name [] c w = Some (Inr ([], []), c, w)"
| "fetchParameterInputs rp name (prm # prms) c w =
     (case sendRequest c w (paramInputValuesUrl rp c name prm) of
        None \<Rightarrow> None
      | Some (Inl e, c1, w1) \<Rightarrow> Some (Inl e, c1, w1)
      | Some (Inr resp, c1, w1) \<Rightarrow>
          (case resultsField resp ''ParamValue'' of
             Inl e \<Rightarrow> Some (Inl e, c1, w1)
           | Inr inputs \<Rightarrow>
               (case extractValidInputs rp inputs name prm of
                  Inl e \<Rightarrow> Some (Inl e, c1, w1)
                | Inr (validInputs, inputDescriptions) \<Rightarrow>
                    (case fetchParameterInputs rp name prms c1 w1 of
                       None \<Rightarrow> None
                     | Some (Inl e, c2, w2) \<Rightarrow> Some (Inl e, c2, w2)
                     | Some (Inr (vis, dscs), c2, w2) \<Rightarrow>
                         Some (Inr (PList validInputs # vis,
                                    PList inputDescriptions # dscs), c2, w2)))))"

text \<open>One pass of the outer loop: the object for one dataset.\<close>

definition buildDataSet ::
  "(pyval \<Rightarrow> string) \<Rightarrow> pyval \<Rightarrow> pyval \<Rightarrow> client \<Rightarrow> world
     \<Rightarrow> ((error + beaDataSet) \<times> client \<times> world) option" where
  "buildDataSet rp name description c w =
     (let d = BeaDataSet name description in
      case sendRequest c w (parameterListUrl rp c (dataSetName d)) of
        None \<Rightarrow> None
      | Some (Inl e, c1, w1) \<Rightarrow> Some (Inl e, c1, w1)
      | Some (Inr resp, c1, w1) \<Rightarrow>
          (case resultsField resp ''Parameter'' of
             Inl e \<Rightarrow> Some (Inl e, c1, w1)
           | Inr params \<Rightarrow>
          (case extractParamInfo params of
             Inl e \<Rightarrow> Some (Inl e, c1, w1)
           | Inr (names, descs, req, dflt, mult, allv) \<Rightarrow>
          (case updateParametersLists
                  (d\<lparr>parameters := PList names,
                     parametersDescriptions := PList descs,
                     parametersRequiredInRequest := PList req,
                     parametersDefaultValues := PList dflt,
                     parametersMultipleValsAcceptedInRequest := PList mult,
                     parametersAllValueRequest := PList allv\<rparr>) of
             Inl e \<Rightarrow> Some (Inl e, c1, w1)
           | Inr d1 \<Rightarrow>
          (case py_iter (parameters d1) of
             Inl e \<Rightarrow> Some (Inl e, c1, w1)
           | Inr prms \<Rightarrow>
          (case fetchParameterInputs rp (dataSetName d1) prms c1 w1 of
             None \<Rightarrow> None
           | Some (Inl e, c2, w2) \<Rightarrow> Some (Inl e, c2, w2)
           | Some (Inr (vis, dscs), c2, w2) \<Rightarrow>
               Some (Inr (d1\<lparr>parameterInputs := PList vis,
                              parameterInputsDescriptions := PList dscs\<rparr>),
                     c2, w2)))))))"

fun buildDataSets ::
  "(pyval \<Rightarrow> string) \<Rightarrow> (pyval \<times> pyval) list \<Rightarrow> client \<Rightarrow> world
     \<Rightarrow> ((error + beaDataSet list) \<times> client \<times> world) option" where
  "buildDataSets rp [] c w = Some (Inr [], c, w)"
| "buildDataSets rp ((name, description) # rest) c w =
     (case buildDataSet rp name description c w of
        None \<Rightarrow> None
      | Some (Inl e, c1, w1) \<Rightarrow> Some (Inl e, c1, w1)
      | Some (Inr d, c1, w1) \<Rightarrow>
          (case buildDataSets rp rest c1 w1 of
             None \<Rightarrow> None
           | Some (Inl e, c2, w2) \<Rightarrow> Some (Inl e, c2, w2)
           | Some (Inr ds, c2, w2) \<Rightarrow> Some (Inr (d # ds), c2, w2)))"

definition downloadBeaDatasets ::
  "(pyval \<Rightarrow> string) \<Rightarrow> client \<Rightarrow> world
     \<Rightarrow> ((error + beaDataSet list) \<times> client \<times> world) option" where
  "downloadBeaDatasets rp c w =
     (case sendRequest c w (allDatasetsUrl c) of
        None \<Rightarrow> None
      | Some (Inl e, c1, w1) \<Rightarrow> Some (Inl e, c1, w1)
      | Some (Inr resp, c1, w1) \<Rightarrow>
          (case resultsField resp ''Dataset'' of
             Inl e \<Rightarrow> Some (Inl e, c1, w1)
           | Inr datasets \<Rightarrow>
               (case extractDataSets datasets of
                  Inl e \<Rightarrow> Some (Inl e, c1, w1)
                | Inr (datasetsList, dataSetDescriptionList) \<Rightarrow>
                    buildDataSets rp (zip datasetsList dataSetDescriptionList) c1 w1)))"

subsection \<open>Sample responses\<close>

definition jsonResponse :: "pyval \<Rightarrow> response" where
  "jsonResponse j = \<lparr>status_code = 200, content = ''{}'', json_body = Some j\<rparr>"

definition beaResult :: "string \<Rightarrow> pyval \<Rightarrow> pyval" where
  "beaResult key v = PDict [(''BEAAPI'', PDict [(''Results'', PDict [(key, v)])])]"

definition nipaDataset :: pyval where
  "nipaDataset =
     PDict [(''DatasetName'', PStr ''NIPA''), (''DatasetDescription'', PStr ''Standard NIPA tables'')]"

definition yearParameter :: pyval where
  "yearParameter =
     PDict [(''ParameterName'', PStr ''Year''),
            (''ParameterDescription'', PStr ''List of years''),
            (''ParameterIsRequiredFlag'', PStr ''1''),
            (''ParameterDefaultValue'', PStr ''''),
            (''MultipleAcceptedFlag'', PStr ''1''),
            (''AllValue'', PStr ''ALL'')]"

definition yearEntry :: pyval where
  "yearEntry =
     PDict [(''Table'', PStr ''T1''), (''A1'', PStr ''1990''), (''A2'', PStr ''2020''),
            (''Q1'', PStr ''1999''), (''Q2'', PStr ''2020''),
            (''M1'', PStr ''2015''), (''M2'', PStr ''2020'')]"

text \<open>A server that answers the first request with a list holding the one dataset
  NIPA, the second with its one parameter \<open>Year\<close> as a bare object, and every
  later request with the given valid-input payload.\<close>

definition catalogWorld :: "pyval \<Rightarrow> world" where
  "catalogWorld payload =
     sampleWorld\<lparr>server := (\<lambda>n url.
        if n = 0 then Some (jsonResponse (beaResult ''Dataset'' (PList [nipaDataset])))
        else if n = 1 then Some (jsonResponse (beaResult ''Parameter'' yearParameter))
        else Some (jsonResponse (beaResult ''ParamValue'' payload)))\<rparr>"

text \<open>The server whose first answer holds the one dataset as a bare object.\<close>

definition bareDatasetWorld :: world where
  "bareDatasetWorld =
     sampleWorld\<lparr>server := (\<lambda>n url. Some (jsonResponse (beaResult ''Dataset'' nipaDataset)))\<rparr>"

definition freshClient :: client where
  "freshClient =
     \<lparr>apiKey = ''KEY'', requestLimit = 100, dataLimit = 104857600, errorLimit = 30,
      requestsMade = 0, dataReceived = 0, errorsMade = 0, lastReset = 0\<rparr>"

text \<open>The values of the sample \<open>Year\<close> entry, by position of their key.\<close>

definition yearVals :: "pyval \<Rightarrow> nat \<Rightarrow> pyval" where
  "yearVals e k = [PStr ''T1'', PStr ''1990'', PStr ''2020'', PStr ''1999'', PStr ''2020'',
                   PStr ''2015'', PStr ''2020''] ! k"

section \<open>downloadBeaDatasets.py: the cache file\<close>

subsection \<open>Library functions and text files\<close>

text \<open>
  The interpreter's functions the cache code calls and the model does not define:
  \<^verbatim>\<open>repr\<close>, \<^verbatim>\<open>eval\<close> (\<open>None\<close> when it raises), and \<^verbatim>\<open>strptime\<close> and
  \<^verbatim>\<open>strftime\<close> for the format \<^verbatim>\<open>%Y-%m-%d\<close>.
\<close>

record pylib =
  py_repr :: "pyval \<Rightarrow> string"
  py_eval :: "string \<Rightarrow> pyval option"
  strptime :: "string \<Rightarrow> date option"
  strftime :: "date \<Rightarrow> string"

definition LF :: char where "LF = CHR 0x0A"
definition CR :: char where "CR = CHR 0x0D"
definition NUL :: char where "NUL = CHR 0x00"

text \<open>The characters \<^verbatim>\<open>str.strip()\<close> removes, among the code points below 256.\<close>

definition isspace :: "char \<Rightarrow> bool" where
  "isspace ch \<longleftrightarrow>
     ch \<in> set [CHR 0x09, CHR 0x0A, CHR 0x0B, CHR 0x0C, CHR 0x0D, CHR 0x1C, CHR 0x1D,
               CHR 0x1E, CHR 0x1F, CHR 0x20, CHR 0x85, CHR 0xA0]"

definition strip :: "string \<Rightarrow> string" where
  "strip s = rev (dropWhile isspace (rev (dropWhile isspace s)))"

text \<open>A file opened for reading in text mode: \<^verbatim>\<open>\r\n\<close> and \<^verbatim>\<open>\r\<close> are read as
  \<^verbatim>\<open>\n\<close>.\<close>

fun universal_newlines :: "string \<Rightarrow> string" where
  "universal_newlines [] = []"
| "universal_newlines [ch] = (if ch = CR then [LF] else [ch])"
| "universal_newlines (ch # ch' # cs) =
     (if ch = CR then
        (if ch' = LF then LF # universal_newlines cs
         else LF # universal_newlines (ch' # cs))
      else ch # universal_newlines (ch' # cs))"

text \<open>The lines that successive calls of \<^verbatim>\<open>readline\<close> return, each with its
  \<^verbatim>\<open>\n\<close>, the last one without when the text does not end in one.\<close>

fun lines_of :: "string \<Rightarrow> string list" where
  "lines_of [] = []"
| "lines_of (ch # cs) =
     (if ch = LF then [LF] # lines_of cs
      else (case lines_of cs of [] \<Rightarrow> [[ch]] | l # ls \<Rightarrow> (ch # l) # ls))"

text \<open>The \<open>k\<close>-th further \<^verbatim>\<open>readline\<close>: at the end of the file it returns the
  empty string.\<close>

definition lineAt :: "string list \<Rightarrow> nat \<Rightarrow> string" where
  "lineAt ls k = (if k < length ls then ls ! k else [])"

definition datetime_now :: "world \<Rightarrow> date \<times> world" where
  "datetime_now w = (let (t, w') = time_time w in (calendar w' t, w'))"

subsection \<open>Fiscal quarter\<close>

definition getFiscalQuarter :: "date \<Rightarrow> int" where
  "getFiscalQuarter d = \<lceil>real_of_int (month d) / 3\<rceil>"

subsection \<open>Writing\<close>

text \<open>\<^verbatim>\<open>v + "\n"\<close>: only a string can be concatenated with one.\<close>

definition plusNewline :: "pyval \<Rightarrow> error + string" where
  "plusNewline v = (case v of PStr s \<Rightarrow> Inr (s @ [LF]) | _ \<Rightarrow> Inl TypeError)"

text \<open>\<^verbatim>\<open>str(v) + "\n"\<close>.\<close>

definition strLine :: "pylib \<Rightarrow> pyval \<Rightarrow> string" where
  "strLine L v = py_str (py_repr L) v @ [LF]"

text \<open>The writes for one dataset, appended to what the file holds so far. When a
  write raises, what was written before it stays in the file.\<close>

definition writeDataSet :: "pylib \<Rightarrow> beaDataSet \<Rightarrow> string \<Rightarrow> error option \<times> string" where
  "writeDataSet L d buf =
     (case plusNewline (dataSetName d) of
        Inl e \<Rightarrow> (Some e, buf)
      | Inr l1 \<Rightarrow>
          (case plusNewline (dataSetDescription d) of
             Inl e \<Rightarrow> (Some e, buf @ l1)
           | Inr l2 \<Rightarrow>
               (None,
                buf @ l1 @ l2
                  @ strLine L (parameters d)
                  @ strLine L (parametersDescriptions d)
                  @ strLine L (parametersRequiredInRequest d)
                  @ strLine L (parametersDefaultValues d)
                  @ strLine L (parametersMultipleValsAcceptedInRequest d)
                  @ strLine L (parametersAllValueRequest d)
                  @ strLine L (parameterInputs d)
                  @ strLine L (parameterInputsDescriptions d)
                  @ [NUL, LF])))"

fun writeAll :: "pylib \<Rightarrow> beaDataSet list \<Rightarrow> string \<Rightarrow> error option \<times> string" where
  "writeAll L [] buf = (None, buf)"
| "writeAll L (d # ds) buf =
     (case writeDataSet L d buf of
        (Some e, buf') \<Rightarrow> (Some e, buf')
      | (None, buf') \<Rightarrow> writeAll L ds buf')"

definition writeDataSetsToFile ::
  "pylib \<Rightarrow> beaDataSet list \<Rightarrow> string \<Rightarrow> world \<Rightarrow> (error + unit) \<times> world" where
  "writeDataSetsToFile L dataSetObjects filename w =
     (let (currentDate, w1) = datetime_now w;
          dateString = strftime L currentDate @ [LF];
          (err, buf) = writeAll L dataSetObjects dateString;
          w2 = w1\<lparr>files := (files w1)(filename := Some buf)\<rparr>
      in (case err of None \<Rightarrow> Inr () | Some e \<Rightarrow> Inl e, w2))"

subsection \<open>Reading\<close>

definition parseList :: "pylib \<Rightarrow> string \<Rightarrow> error + pyval" where
  "parseList L line =
     (if strip line \<noteq> []
      then (case py_eval L (strip line) of None \<Rightarrow> Inl ValueError | Some v \<Rightarrow> Inr v)
      else Inr (PList []))"

text \<open>The \<^verbatim>\<open>while True\<close> loop of \<^verbatim>\<open>readBeaDataSets\<close>, over the lines still to be
  read: eleven lines for each dataset, until a line that is empty once stripped.\<close>

fun readDataSets :: "pylib \<Rightarrow> string list \<Rightarrow> error + beaDataSet list" where
  "readDataSets L [] = Inr []"
| "readDataSets L (l # ls) =
     (if strip l = [] then Inr []
      else
        (case parseList L (lineAt ls 1) of Inl e \<Rightarrow> Inl e | Inr p1 \<Rightarrow>
         case parseList L (lineAt ls 2) of Inl e \<Rightarrow> Inl e | Inr p2 \<Rightarrow>
         case parseList L (lineAt ls 3) of Inl e \<Rightarrow> Inl e | Inr p3 \<Rightarrow>
         case parseList L (lineAt ls 4) of Inl e \<Rightarrow> Inl e | Inr p4 \<Rightarrow>
         case parseList L (lineAt ls 5) of Inl e \<Rightarrow> Inl e | Inr p5 \<Rightarrow>
         case parseList L (lineAt ls 6) of Inl e \<Rightarrow> Inl e | Inr p6 \<Rightarrow>
         case parseList L (lineAt ls 7) of Inl e \<Rightarrow> Inl e | Inr p7 \<Rightarrow>
         case parseList L (lineAt ls 8) of Inl e \<Rightarrow> Inl e | Inr p8 \<Rightarrow>
         case readDataSets L (drop 10 ls) of Inl e \<Rightarrow> Inl e | Inr rest \<Rightarrow>
           Inr ((BeaDataSet (PStr (strip l)) (PStr (strip (lineAt ls 0))))
                  \<lparr>parameters := p1,
                   parametersDescriptions := p2,
                   parametersRequiredInRequest := p3,
                   parametersDefaultValues := p4,
                   parametersMultipleValsAcceptedInRequest := p5,
                   parametersAllValueRequest := p6,
                   parameterInputs := p7,
                   parameterInputsDescriptions := p8\<rparr> # rest)))"

text \<open>The refresh that both the outdated branch and the missing-file handler
  run: build, write, sleep. \<open>guarded\<close> says whether it runs inside the
  \<^verbatim>\<open>try\<close> block, where \<^verbatim>\<open>except Exception\<close> turns a failure into the result
  \<^verbatim>\<open>None\<close> after a sleep; in the handler a failure propagates.\<close>

definition refresh ::
  "pylib \<Rightarrow> bool \<Rightarrow> client \<Rightarrow> world \<Rightarrow> string
     \<Rightarrow> ((error + beaDataSet list option) \<times> client \<times> world) option" where
  "refresh L guarded c w filename =
     (case downloadBeaDatasets (py_repr L) c w of
        None \<Rightarrow> None
      | Some (Inl e, c1, w1) \<Rightarrow>
          Some (if guarded then (Inr None, c1, time_sleep 2 w1) else (Inl e, c1, w1))
      | Some (Inr ds, c1, w1) \<Rightarrow>
          (case writeDataSetsToFile L ds filename w1 of
             (Inl e, w2) \<Rightarrow>
               Some (if guarded then (Inr None, c1, time_sleep 2 w2) else (Inl e, c1, w2))
           | (Inr u, w2) \<Rightarrow> Some (Inr (Some ds), c1, time_sleep 2 w2)))"

definition readBeaDataSets ::
  "pylib \<Rightarrow> client \<Rightarrow> world \<Rightarrow> string
     \<Rightarrow> ((error + beaDataSet list option) \<times> client \<times> world) option" where
  "readBeaDataSets L c w filename =
     (case files w filename of
        None \<Rightarrow> refresh L False c w filename
      | Some stored \<Rightarrow>
          (let ls = lines_of (universal_newlines stored);
               dateLine = strip (lineAt ls 0)
           in case strptime L dateLine of
                None \<Rightarrow> Some (Inr None, c, time_sleep 2 w)
              | Some fileDate \<Rightarrow>
                  (let fileQuarter = getFiscalQuarter fileDate;
                       (currentDate, w1) = datetime_now w;
                       currentQuarter = getFiscalQuarter currentDate
                   in if year currentDate > year fileDate \<or> currentQuarter \<noteq> fileQuarter
                      then refresh L True c w1 filename
                      else (case readDataSets L (drop 1 ls) of
                              Inl e \<Rightarrow> Some (Inr None, c, time_sleep 2 w1)
                            | Inr dataSetObjects \<Rightarrow>
                                Some (Inr (Some dataSetObjects), c, time_sleep 2 w1)))))"

subsection \<open>Sample library and cache files\<close>

text \<open>A library that agrees with the interpreter on the values the examples
  below use: the empty list and three dates.\<close>

definition sampleLib :: pylib where
  "sampleLib =
     \<lparr>py_repr = (\<lambda>v. if v = PList [] then ''[]'' else ''?''),
      py_eval = (\<lambda>s. if s = ''[]'' then Some (PList []) else None),
      strptime = (\<lambda>s.
        if s = ''2024-04-10'' then Some \<lparr>year = 2024, month = 4, day = 10\<rparr>
        else if s = ''2025-04-10'' then Some \<lparr>year = 2025, month = 4, day = 10\<rparr>
        else if s = ''2024-02-01'' then Some \<lparr>year = 2024, month = 2, day = 1\<rparr>
        else None),
      strftime = (\<lambda>d. if d = \<lparr>year = 2024, month = 4, day = 10\<rparr> then ''2024-04-10'' else ''?'')\<rparr>"

definition cacheName :: string where
  "cacheName = ''beaDataSets.txt''"

text \<open>The sample world (whose date is 2024-04-10) holding a cache file with the
  given first line and no dataset.\<close>

definition cachedWorld :: "string \<Rightarrow> world" where
  "cachedWorld dateLine =
     sampleWorld\<lparr>files := (\<lambda>name. if name = cacheName then Some (dateLine @ [LF]) else None)\<rparr>"

text \<open>The sample world with a cache file dated 2024-02-01 and a server whose
  dataset list is empty.\<close>

definition staleWorld :: world where
  "staleWorld =
     sampleWorld\<lparr>server := (\<lambda>n url. Some (jsonResponse (beaResult ''Dataset'' (PList [])))),
                 files := (\<lambda>name. if name = cacheName then Some (''2024-02-01'' @ [LF]) else None)\<rparr>"

subsection \<open>What the flat format can hold\<close>

text \<open>A string that fits on one line of the file.\<close>

definition plainLine :: "string \<Rightarrow> bool" where
  "plainLine s \<longleftrightarrow> LF \<notin> set s \<and> CR \<notin> set s"

text \<open>A value whose \<^verbatim>\<open>str\<close> fits on one line, is not blank, and is read back by
  \<^verbatim>\<open>eval\<close> as the same value.\<close>

definition storable :: "pylib \<Rightarrow> pyval \<Rightarrow> bool" where
  "storable L v \<longleftrightarrow>
     plainLine (py_str (py_repr L) v) \<and> strip (py_str (py_repr L) v) \<noteq> []
       \<and> py_eval L (strip (py_str (py_repr L) v)) = Some v"

text \<open>A dataset object the format can hold: name and description are strings on
  one line with no whitespace at either end, the name is not empty, the eight
  list attributes are storable, and \<open>urlParamInputs\<close> is as the constructor
  leaves it.\<close>

definition roundTrips :: "pylib \<Rightarrow> beaDataSet \<Rightarrow> bool" where
  "roundTrips L d \<longleftrightarrow>
     (case dataSetName d of
        PStr n \<Rightarrow> n \<noteq> [] \<and> strip n = n \<and> plainLine n | _ \<Rightarrow> False)
     \<and> (case dataSetDescription d of
        PStr s \<Rightarrow> strip s = s \<and> plainLine s | _ \<Rightarrow> False)
     \<and> storable L (parameters d)
     \<and> storable L (parametersDescriptions d)
     \<and> storable L (parametersRequiredInRequest d)
     \<and> storable L (parametersDefaultValues d)
     \<and> storable L (parametersMultipleValsAcceptedInRequest d)
     \<and> storable L (parametersAllValueRequest d)
     \<and> storable L (parameterInputs d)
     \<and> storable L (parameterInputsDescriptions d)
     \<and> urlParamInputs d = []"

text \<open>The eleven lines \<^verbatim>\<open>writeDataSetsToFile\<close> writes for a dataset whose name and
  description are strings.\<close>

definition blockLines :: "pylib \<Rightarrow> beaDataSet \<Rightarrow> string list" where
  "blockLines L d =
     [py_str (py_repr L) (dataSetName d),
      py_str (py_repr L) (dataSetDescription d),
      py_str (py_repr L) (parameters d),
      py_str (py_repr L) (parametersDescriptions d),
      py_str (py_repr L) (parametersRequiredInRequest d),
      py_str (py_repr L) (parametersDefaultValues d),
      py_str (py_repr L) (parametersMultipleValsAcceptedInRequest d),
      py_str (py_repr L) (parametersAllValueRequest d),
      py_str (py_repr L) (parameterInputs d),
      py_str (py_repr L) (parameterInputsDescriptions d),
      [NUL]]"

text \<open>Lines joined into file text, each followed by \<^verbatim>\<open>\n\<close>.\<close>

definition joinLines :: "string list \<Rightarrow> string" where
  "joinLines ls = concat (map (\<lambda>l. l @ [LF]) ls)"

text \<open>Two datasets with empty lists, the second with a trailing space in its
  name.\<close>

definition plainDataSet :: beaDataSet where
  "plainDataSet = BeaDataSet (PStr ''NIPA'') (PStr ''Standard NIPA tables'')"

definition paddedDataSet :: beaDataSet where
  "paddedDataSet = BeaDataSet (PStr ''NIPA '') (PStr ''Standard NIPA tables'')"

section \<open>Properties of the rate-limited client\<close>

lemma waitStep_cases:
  "fst (waitStep c w) = c \<or>
   (countersZero (fst (waitStep c w)) \<and> sameLimits c (fst (waitStep c w))
      \<and> lastReset c + 60 < lastReset (fst (waitStep c w)))"
  unfolding waitStep_def Let_def
  by (auto simp: resetCounters_def Let_def countersZero_def sameLimits_def
      split: prod.splits)

lemma resetCounters_cases:
  "fst (resetCounters c w) = c \<or>
   (countersZero (fst (resetCounters c w)) \<and> sameLimits c (fst (resetCounters c w))
      \<and> lastReset c + 60 < lastReset (fst (resetCounters c w)))"
  by (auto simp: resetCounters_def Let_def countersZero_def sameLimits_def
      split: prod.splits)

lemma waitLoop_released:
  assumes "waitLoop c w = Some y"
  shows "\<not> limitsExceeded (fst y)"
proof (rule waitLoop.raw_induct[OF _ assms])
  fix loop c w y
  assume ih: "\<And>c w y. loop c w = Some y \<Longrightarrow> \<not> limitsExceeded (fst y)"
    and eq: "(if limitsExceeded c
              then loop (fst (waitStep c w)) (snd (waitStep c w))
              else Some (c, w)) = Some y"
  show "\<not> limitsExceeded (fst y)"
  proof (cases "limitsExceeded c")
    case True
    with eq ih show ?thesis by simp
  next
    case False
    with eq show ?thesis by auto
  qed
qed

lemma waitLoop_zero:
  assumes "waitLoop c w = Some y"
  shows "(\<not> limitsExceeded c \<longrightarrow> fst y = c) \<and> (limitsExceeded c \<longrightarrow> countersZero (fst y))"
proof (rule waitLoop.raw_induct[OF _ assms])
  fix loop c w y
  assume ih: "\<And>c w y. loop c w = Some y \<Longrightarrow>
       (\<not> limitsExceeded c \<longrightarrow> fst y = c) \<and> (limitsExceeded c \<longrightarrow> countersZero (fst y))"
    and eq: "(if limitsExceeded c
              then loop (fst (waitStep c w)) (snd (waitStep c w))
              else Some (c, w)) = Some y"
  show "(\<not> limitsExceeded c \<longrightarrow> fst y = c) \<and> (limitsExceeded c \<longrightarrow> countersZero (fst y))"
  proof (cases "limitsExceeded c")
    case False
    with eq show ?thesis by auto
  next
    case True
    with eq have rec: "loop (fst (waitStep c w)) (snd (waitStep c w)) = Some y" by simp
    note h = ih[OF rec] and exceeded = True
    show ?thesis
    proof (cases "limitsExceeded (fst (waitStep c w))")
      case True
      with h exceeded show ?thesis by simp
    next
      case False
      with h have "fst y = fst (waitStep c w)" by simp
      moreover from False exceeded waitStep_cases[of c w]
      have "countersZero (fst (waitStep c w))" by auto
      ultimately show ?thesis using exceeded by simp
    qed
  qed
qed

text \<open>What the loop leaves alone: the configuration; and what it can do to the
  client: nothing, or a rollover that zeroes the counters and moves the window
  start forward by more than a minute.\<close>

lemma waitLoop_frame:
  assumes "waitLoop c w = Some y"
  shows "sameLimits c (fst y) \<and>
     (fst y = c \<or> (countersZero (fst y) \<and> lastReset c + 60 < lastReset (fst y)))"
proof (rule waitLoop.raw_induct[OF _ assms])
  fix loop c w y
  assume ih: "\<And>c w y. loop c w = Some y \<Longrightarrow> sameLimits c (fst y) \<and>
     (fst y = c \<or> (countersZero (fst y) \<and> lastReset c + 60 < lastReset (fst y)))"
    and eq: "(if limitsExceeded c
              then loop (fst (waitStep c w)) (snd (waitStep c w))
              else Some (c, w)) = Some y"
  show "sameLimits c (fst y) \<and>
     (fst y = c \<or> (countersZero (fst y) \<and> lastReset c + 60 < lastReset (fst y)))"
  proof (cases "limitsExceeded c")
    case False
    with eq show ?thesis by (auto simp: sameLimits_def)
  next
    case True
    with eq have rec: "loop (fst (waitStep c w)) (snd (waitStep c w)) = Some y" by simp
    note h = ih[OF rec]
    from waitStep_cases[of c w] show ?thesis
    proof
      assume "fst (waitStep c w) = c"
      with h show ?thesis by simp
    next
      assume r: "countersZero (fst (waitStep c w)) \<and> sameLimits c (fst (waitStep c w))
        \<and> lastReset c + 60 < lastReset (fst (waitStep c w))"
      from h have "sameLimits c (fst y)"
        using r by (simp add: sameLimits_def)
      moreover from h r
      have "countersZero (fst y) \<and> lastReset c + 60 < lastReset (fst y)"
        by auto
      ultimately show ?thesis by simp
    qed
  qed
qed

lemma awaitCapacity_frame:
  assumes "awaitCapacity c w = Some (g, wg)"
  shows "sameLimits c g \<and>
     (g = c \<or> (countersZero g \<and> lastReset c + 60 < lastReset g))"
proof -
  obtain c0 w0 where r: "resetCounters c w = (c0, w0)" by (cases "resetCounters c w")
  with assms have l: "waitLoop c0 w0 = Some (g, wg)" by (simp add: awaitCapacity_def)
  from resetCounters_cases[of c w] r
  have a: "c0 = c \<or> (countersZero c0 \<and> sameLimits c c0 \<and> lastReset c + 60 < lastReset c0)"
    by simp
  from waitLoop_frame[OF l]
  have b: "sameLimits c0 g \<and> (g = c0 \<or> (countersZero g \<and> lastReset c0 + 60 < lastReset g))"
    by simp
  from a b show ?thesis by (auto simp: sameLimits_def)
qed

lemma awaitCapacity_released:
  assumes "awaitCapacity c w = Some (g, wg)"
  shows "\<not> limitsExceeded g"
proof -
  obtain c0 w0 where r: "resetCounters c w = (c0, w0)" by (cases "resetCounters c w")
  with assms have "waitLoop c0 w0 = Some (g, wg)" by (simp add: awaitCapacity_def)
  from waitLoop_released[OF this] show ?thesis by simp
qed

lemma issueRequest_sameLimits:
  "issueRequest c w url = (r, c', w') \<Longrightarrow> sameLimits c c'"
  by (auto simp: issueRequest_def requests_get_def sameLimits_def Let_def
      split: option.splits if_splits)

lemma waitStep_resets:
  assumes "0 < elapse w (Suc (reads w))" "0 \<le> elapse w (reads w)"
  shows "countersZero (fst (waitStep c w)) \<and> sameLimits c (fst (waitStep c w))"
  using assms
  by (auto simp: waitStep_def resetCounters_def time_time_def time_sleep_def Let_def
      countersZero_def sameLimits_def split: prod.splits)

lemma waitLoop_one_pass:
  assumes "0 < requestLimit c" "0 < dataLimit c" "0 < errorLimit c"
    and "\<forall>k. 0 < elapse w k"
  shows "waitLoop c w = Some (if limitsExceeded c then waitStep c w else (c, w))"
proof (cases "limitsExceeded c")
  case False
  then show ?thesis by (subst waitLoop.simps) simp
next
  case True
  from assms(4) have "0 < elapse w (Suc (reads w))" "0 \<le> elapse w (reads w)"
    by (simp_all add: less_imp_le)
  from waitStep_resets[OF this, of c] assms(1-3)
  have "\<not> limitsExceeded (fst (waitStep c w))"
    by (simp add: limitsExceeded_def countersZero_def sameLimits_def)
  then have "waitLoop (fst (waitStep c w)) (snd (waitStep c w))
             = Some (fst (waitStep c w), snd (waitStep c w))"
    by (subst waitLoop.simps) simp
  with True show ?thesis by (subst waitLoop.simps) simp
qed

lemma waitLoop_nonneg:
  assumes "waitLoop c w = Some y"
    and "0 \<le> requestsMade c" "0 \<le> dataReceived c" "0 \<le> errorsMade c"
  shows "0 \<le> requestsMade (fst y) \<and> 0 \<le> dataReceived (fst y) \<and> 0 \<le> errorsMade (fst y)"
  using waitLoop_frame[OF assms(1)] assms(2-4) by (auto simp: countersZero_def)

lemma waitLoop_diverges:
  assumes "requestLimit c = 0 \<or> dataLimit c = 0 \<or> errorLimit c = 0"
    and "0 \<le> requestsMade c" "0 \<le> dataReceived c" "0 \<le> errorsMade c"
  shows "waitLoop c w = None"
proof (rule ccontr)
  assume "waitLoop c w \<noteq> None"
  then obtain y where y: "waitLoop c w = Some y" by auto
  from waitLoop_released[OF y] waitLoop_frame[OF y] waitLoop_nonneg[OF y assms(2-4)] assms(1)
  show False by (auto simp: limitsExceeded_def sameLimits_def)
qed

subsection \<open>Runs of calls\<close>

lemma fetches_admitted:
  "fetches c w urls = Some (gs, c', w') \<Longrightarrow>
     sameLimits c c' \<and> (\<forall>g \<in> set gs. sameLimits c g \<and> \<not> limitsExceeded g)"
proof (induction urls arbitrary: c w gs c' w')
  case Nil
  then show ?case by (simp add: sameLimits_def)
next
  case (Cons url urls)
  from Cons.prems obtain g wg where a: "awaitCapacity c w = Some (g, wg)"
    by (auto split: option.splits)
  obtain r c1 w1 where i: "issueRequest g wg url = (r, c1, w1)"
    by (cases "issueRequest g wg url")
  from Cons.prems a i obtain gs' where
    f: "fetches c1 w1 urls = Some (gs', c', w')" and gs: "gs = g # gs'"
    by (auto split: option.splits)
  from awaitCapacity_frame[OF a] have s1: "sameLimits c g" by simp
  from issueRequest_sameLimits[OF i] have s2: "sameLimits g c1" .
  from s1 s2 have s3: "sameLimits c c1" by (simp add: sameLimits_def)
  from Cons.IH[OF f] s3
  have "sameLimits c c' \<and> (\<forall>x \<in> set gs'. sameLimits c x \<and> \<not> limitsExceeded x)"
    by (auto simp: sameLimits_def)
  with s1 awaitCapacity_released[OF a] gs show ?case by simp
qed

lemma overshoot_example:
  "checkLimits nearlyFullClient sampleWorld ''u'' =
     Some (Inr (PDict []),
           nearlyFullClient\<lparr>requestsMade := 100, dataReceived := 104857601\<rparr>,
           sampleWorld\<lparr>now := 1, reads := 1, sent := 1\<rparr>)"
  by (simp add: checkLimits_def awaitCapacity_def resetCounters_def time_time_def
      waitLoop.simps limitsExceeded_def issueRequest_def requests_get_def
      sampleWorld_def nearlyFullClient_def okResponse_def Let_def)

lemma full_example:
  "awaitCapacity fullClient sampleWorld =
     Some (fullClient\<lparr>requestsMade := 0, dataReceived := 0, errorsMade := 0, lastReset := 61\<rparr>,
           sampleWorld\<lparr>now := 61, reads := 3\<rparr>)"
  by (simp add: awaitCapacity_def resetCounters_def time_time_def time_sleep_def waitStep_def
      waitLoop.simps limitsExceeded_def
      sampleWorld_def nearlyFullClient_def fullClient_def Let_def)

lemma may_overshoot:
  "\<exists>c w url r c' w'. checkLimits c w url = Some (r, c', w') \<and> dataLimit c < dataReceived c'"
proof -
  have "dataLimit nearlyFullClient
          < dataReceived (nearlyFullClient\<lparr>requestsMade := 100, dataReceived := 104857601\<rparr>)"
    by (simp add: nearlyFullClient_def)
  with overshoot_example show ?thesis by blast
qed

lemma fetches_example:
  "fetches nearlyFullClient sampleWorld [''u''] =
     Some ([nearlyFullClient],
           nearlyFullClient\<lparr>requestsMade := 100, dataReceived := 104857601\<rparr>,
           sampleWorld\<lparr>now := 1, reads := 1, sent := 1\<rparr>)"
  by (simp add: awaitCapacity_def resetCounters_def time_time_def
      waitLoop.simps limitsExceeded_def issueRequest_def requests_get_def
      sampleWorld_def nearlyFullClient_def okResponse_def Let_def)

lemma full_reset_example:
  "resetCounters fullClient sampleWorld = (fullClient, sampleWorld\<lparr>now := 1, reads := 1\<rparr>)"
  by (simp add: resetCounters_def time_time_def sampleWorld_def nearlyFullClient_def
      fullClient_def Let_def)

text \<open>
  Claim C1, as the code has it. In every run of calls on one client, at the point
  where a call is admitted to issue its request (after the reset check and the
  wait loop of \<^verbatim>\<open>checkLimits\<close>), each of \<open>requestsMade\<close>, \<open>dataReceived\<close> and
  \<open>errorsMade\<close> is below the maximum the client was configured with, so none
  exceeds it; and a counter can exceed its maximum once a call has completed:
  there is a call after which \<open>dataReceived\<close> is above \<open>dataLimit\<close>.
\<close>

theorem fetches_within_limits:
  "(fetches c w urls = Some (gs, c', w') \<longrightarrow>
      (\<forall>g \<in> set gs. requestsMade g < requestLimit c \<and> dataReceived g < dataLimit c
                        \<and> errorsMade g < errorLimit c))
   \<and> (\<exists>c w url r c' w'. checkLimits c w url = Some (r, c', w')
                             \<and> dataLimit c < dataReceived c')"
proof (rule conjI)
  show "fetches c w urls = Some (gs, c', w') \<longrightarrow>
      (\<forall>g \<in> set gs. requestsMade g < requestLimit c \<and> dataReceived g < dataLimit c
                        \<and> errorsMade g < errorLimit c)"
  proof (rule impI, rule ballI)
    fix g
    assume f: "fetches c w urls = Some (gs, c', w')" and g: "g \<in> set gs"
    from fetches_admitted[OF f] g have "sameLimits c g" "\<not> limitsExceeded g" by auto
    then show "requestsMade g < requestLimit c \<and> dataReceived g < dataLimit c
                 \<and> errorsMade g < errorLimit c"
      by (auto simp: sameLimits_def limitsExceeded_def)
  qed
next
  show "\<exists>c w url r c' w'. checkLimits c w url = Some (r, c', w')
                             \<and> dataLimit c < dataReceived c'"
    by (rule may_overshoot)
qed

theorem fetches_within_limits_witness:
  "fetches nearlyFullClient sampleWorld [''u''] =
     Some ([nearlyFullClient],
           nearlyFullClient\<lparr>requestsMade := 100, dataReceived := 104857601\<rparr>,
           sampleWorld\<lparr>now := 1, reads := 1, sent := 1\<rparr>)
   \<and> requestsMade nearlyFullClient < requestLimit nearlyFullClient
   \<and> dataReceived nearlyFullClient < dataLimit nearlyFullClient
   \<and> errorsMade nearlyFullClient < errorLimit nearlyFullClient"
  using fetches_example
    fetches_within_limits[of nearlyFullClient sampleWorld "[''u'']" "[nearlyFullClient]"
      "nearlyFullClient\<lparr>requestsMade := 100, dataReceived := 104857601\<rparr>"
      "sampleWorld\<lparr>now := 1, reads := 1, sent := 1\<rparr>"]
  by simp

text \<open>
  At the entry of a call the bound does not hold: the state in which a call is
  entered is the state the previous call left. A client within all three limits
  makes two calls; the second is entered with \<open>dataReceived\<close> above
  \<open>dataLimit\<close>, and is admitted only after the window has rolled over.
\<close>

theorem entries_exceed_counterexample:
  "requestsMade nearlyFullClient \<le> requestLimit nearlyFullClient
   \<and> dataReceived nearlyFullClient \<le> dataLimit nearlyFullClient
   \<and> errorsMade nearlyFullClient \<le> errorLimit nearlyFullClient
   \<and> entries nearlyFullClient sampleWorld [''u'', ''v''] =
       Some [nearlyFullClient,
             nearlyFullClient\<lparr>requestsMade := 100, dataReceived := 104857601\<rparr>]
   \<and> dataLimit nearlyFullClient
       < dataReceived (nearlyFullClient\<lparr>requestsMade := 100, dataReceived := 104857601\<rparr>)"
  by (simp add: sendRequest_def checkLimits_def awaitCapacity_def resetCounters_def
      time_time_def time_sleep_def waitStep_def waitLoop.simps limitsExceeded_def
      issueRequest_def requests_get_def sampleWorld_def nearlyFullClient_def okResponse_def
      Let_def)

text \<open>
  Claim C2. A call that enters the wait loop (some counter at or above its limit
  after the initial reset check) is released to issue its request only in a state
  where \<open>requestsMade\<close>, \<open>dataReceived\<close> and \<open>errorsMade\<close> are all exactly zero.
\<close>

theorem awaitCapacity_releases_at_zero:
  "resetCounters c w = (c0, w0) \<Longrightarrow> limitsExceeded c0 \<Longrightarrow>
   awaitCapacity c w = Some (g, wg) \<Longrightarrow>
     requestsMade g = 0 \<and> dataReceived g = 0 \<and> errorsMade g = 0"
proof -
  assume r: "resetCounters c w = (c0, w0)" and e: "limitsExceeded c0"
    and a: "awaitCapacity c w = Some (g, wg)"
  from r a have "waitLoop c0 w0 = Some (g, wg)" by (simp add: awaitCapacity_def)
  from waitLoop_zero[OF this] e show ?thesis by (simp add: countersZero_def)
qed

theorem awaitCapacity_releases_at_zero_witness:
  "resetCounters fullClient sampleWorld = (fullClient, sampleWorld\<lparr>now := 1, reads := 1\<rparr>)
   \<and> limitsExceeded fullClient
   \<and> awaitCapacity fullClient sampleWorld =
       Some (fullClient\<lparr>requestsMade := 0, dataReceived := 0, errorsMade := 0,
                        lastReset := 61\<rparr>,
             sampleWorld\<lparr>now := 61, reads := 3\<rparr>)
   \<and> requestsMade (fullClient\<lparr>requestsMade := 0, dataReceived := 0, errorsMade := 0,
                        lastReset := 61\<rparr>) = 0"
proof -
  have e: "limitsExceeded fullClient"
    by (simp add: limitsExceeded_def fullClient_def nearlyFullClient_def)
  from awaitCapacity_releases_at_zero[OF full_reset_example e full_example]
    full_reset_example e full_example
  show ?thesis by simp
qed

lemma issueRequest_monotone:
  "issueRequest g wg url = (r, c', w') \<Longrightarrow>
     lastReset c' = lastReset g \<and> requestsMade g \<le> requestsMade c' \<and>
     dataReceived g \<le> dataReceived c' \<and> errorsMade g \<le> errorsMade c'"
  by (auto simp: issueRequest_def requests_get_def Let_def split: option.splits if_splits)

text \<open>
  Claim C3. Whenever a reset check observes a rollover (the clock reading minus
  \<open>lastReset\<close> is above 60), \<open>requestsMade\<close>, \<open>dataReceived\<close> and
  \<open>errorsMade\<close> are all set to 0 and \<open>lastReset\<close> to that reading, in the one
  step; a reset check that observes no rollover changes nothing. Over a whole call,
  either the window is the same and no counter has decreased, or the window start
  has moved on by more than a minute and all three counters were zero together
  when the request was issued.
\<close>

theorem rollover_resets_together:
  "(resetCounters c w = (c', w') \<longrightarrow>
      (fst (time_time w) - lastReset c > 60 \<longrightarrow>
         requestsMade c' = 0 \<and> dataReceived c' = 0 \<and> errorsMade c' = 0
           \<and> lastReset c' = fst (time_time w))
      \<and> (\<not> fst (time_time w) - lastReset c > 60 \<longrightarrow> c' = c))
   \<and> (checkLimits c w url = Some (r, c2, w2) \<longrightarrow>
        (lastReset c2 = lastReset c \<and> requestsMade c \<le> requestsMade c2
           \<and> dataReceived c \<le> dataReceived c2 \<and> errorsMade c \<le> errorsMade c2)
        \<or> (lastReset c + 60 < lastReset c2
             \<and> (\<exists>g wg. awaitCapacity c w = Some (g, wg) \<and> requestsMade g = 0
                    \<and> dataReceived g = 0 \<and> errorsMade g = 0)))"
proof (rule conjI)
  show "resetCounters c w = (c', w') \<longrightarrow>
      (fst (time_time w) - lastReset c > 60 \<longrightarrow>
         requestsMade c' = 0 \<and> dataReceived c' = 0 \<and> errorsMade c' = 0
           \<and> lastReset c' = fst (time_time w))
      \<and> (\<not> fst (time_time w) - lastReset c > 60 \<longrightarrow> c' = c)"
    by (auto simp: resetCounters_def Let_def split: prod.splits if_splits)
next
  show "checkLimits c w url = Some (r, c2, w2) \<longrightarrow>
        (lastReset c2 = lastReset c \<and> requestsMade c \<le> requestsMade c2
           \<and> dataReceived c \<le> dataReceived c2 \<and> errorsMade c \<le> errorsMade c2)
        \<or> (lastReset c + 60 < lastReset c2
             \<and> (\<exists>g wg. awaitCapacity c w = Some (g, wg) \<and> requestsMade g = 0
                    \<and> dataReceived g = 0 \<and> errorsMade g = 0))"
  proof
    assume ch: "checkLimits c w url = Some (r, c2, w2)"
    then obtain g wg where a: "awaitCapacity c w = Some (g, wg)"
      and i: "issueRequest g wg url = (r, c2, w2)"
      by (auto simp: checkLimits_def split: option.splits)
    note m = issueRequest_monotone[OF i]
    from awaitCapacity_frame[OF a]
    have "g = c \<or> (countersZero g \<and> lastReset c + 60 < lastReset g)" by simp
    then show "(lastReset c2 = lastReset c \<and> requestsMade c \<le> requestsMade c2
           \<and> dataReceived c \<le> dataReceived c2 \<and> errorsMade c \<le> errorsMade c2)
        \<or> (lastReset c + 60 < lastReset c2
             \<and> (\<exists>g wg. awaitCapacity c w = Some (g, wg) \<and> requestsMade g = 0
                    \<and> dataReceived g = 0 \<and> errorsMade g = 0))"
    proof
      assume "g = c"
      with m show ?thesis by simp
    next
      assume z: "countersZero g \<and> lastReset c + 60 < lastReset g"
      with m a show ?thesis by (auto simp: countersZero_def)
    qed
  qed
qed

lemma reset_late_example:
  "resetCounters fullClient (sampleWorld\<lparr>now := 100\<rparr>) =
     (fullClient\<lparr>requestsMade := 0, dataReceived := 0, errorsMade := 0, lastReset := 101\<rparr>,
      sampleWorld\<lparr>now := 101, reads := 1\<rparr>)"
  by (simp add: resetCounters_def time_time_def sampleWorld_def nearlyFullClient_def
      fullClient_def Let_def)

theorem rollover_resets_together_witness:
  "fst (time_time (sampleWorld\<lparr>now := 100\<rparr>)) - lastReset fullClient > 60
   \<and> resetCounters fullClient (sampleWorld\<lparr>now := 100\<rparr>) =
     (fullClient\<lparr>requestsMade := 0, dataReceived := 0, errorsMade := 0, lastReset := 101\<rparr>,
      sampleWorld\<lparr>now := 101, reads := 1\<rparr>)
   \<and> lastReset (fullClient\<lparr>requestsMade := 0, dataReceived := 0, errorsMade := 0,
         lastReset := 101\<rparr>) = fst (time_time (sampleWorld\<lparr>now := 100\<rparr>))
   \<and> \<not> fst (time_time sampleWorld) - lastReset fullClient > 60
   \<and> resetCounters fullClient sampleWorld = (fullClient, sampleWorld\<lparr>now := 1, reads := 1\<rparr>)
   \<and> checkLimits nearlyFullClient sampleWorld ''u'' =
     Some (Inr (PDict []),
           nearlyFullClient\<lparr>requestsMade := 100, dataReceived := 104857601\<rparr>,
           sampleWorld\<lparr>now := 1, reads := 1, sent := 1\<rparr>)
   \<and> requestsMade nearlyFullClient
        \<le> requestsMade (nearlyFullClient\<lparr>requestsMade := 100, dataReceived := 104857601\<rparr>)"
proof -
  have a: "fst (time_time (sampleWorld\<lparr>now := 100\<rparr>)) - lastReset fullClient > 60"
    by (simp add: time_time_def sampleWorld_def fullClient_def nearlyFullClient_def Let_def)
  have b: "\<not> fst (time_time sampleWorld) - lastReset fullClient > 60"
    by (simp add: time_time_def sampleWorld_def fullClient_def nearlyFullClient_def Let_def)
  have c: "requestsMade nearlyFullClient
        \<le> requestsMade (nearlyFullClient\<lparr>requestsMade := 100, dataReceived := 104857601\<rparr>)"
    by (simp add: nearlyFullClient_def)
  from rollover_resets_together[of fullClient "sampleWorld\<lparr>now := 100\<rparr>"
      "fullClient\<lparr>requestsMade := 0, dataReceived := 0, errorsMade := 0, lastReset := 101\<rparr>"
      "sampleWorld\<lparr>now := 101, reads := 1\<rparr>"]
    reset_late_example a
  have d: "lastReset (fullClient\<lparr>requestsMade := 0, dataReceived := 0, errorsMade := 0,
         lastReset := 101\<rparr>) = fst (time_time (sampleWorld\<lparr>now := 100\<rparr>))"
    by blast
  from a b c d reset_late_example full_reset_example overshoot_example
  show ?thesis by blast
qed

text \<open>
  Claim C4. A call that issues its request and gets a response adds exactly 1 to
  \<open>requestsMade\<close> and the size of the response body to \<open>dataReceived\<close>,
  whatever the status. With a status other than 200 it adds exactly 1 to
  \<open>errorsMade\<close> and fails with an error carrying the status, with no body
  delivered; with status 200 it leaves \<open>errorsMade\<close> as it was and returns the
  parsed JSON body (when the body does not parse, the parser's own error).
\<close>

theorem checkLimits_accounting:
  "checkLimits c w url = Some (res, c', w') \<Longrightarrow> awaitCapacity c w = Some (g, wg) \<Longrightarrow>
   server wg (sent wg) url = Some r \<Longrightarrow>
     requestsMade c' = requestsMade g + 1
     \<and> dataReceived c' = dataReceived g + int (length (content r))
     \<and> (status_code r \<noteq> 200 \<longrightarrow>
           errorsMade c' = errorsMade g + 1 \<and> res = Inl (RequestError (status_code r)))
     \<and> (status_code r = 200 \<longrightarrow>
           errorsMade c' = errorsMade g
           \<and> res = (case json_body r of None \<Rightarrow> Inl JSONDecodeError | Some j \<Rightarrow> Inr j))"
  by (auto simp: checkLimits_def issueRequest_def requests_get_def Let_def
      split: option.splits if_splits)

lemma error_example:
  "checkLimits nearlyFullClient errorWorld ''u'' =
     Some (Inl (RequestError 503),
           nearlyFullClient\<lparr>requestsMade := 100, dataReceived := 104857601, errorsMade := 1\<rparr>,
           errorWorld\<lparr>now := 1, reads := 1, sent := 1\<rparr>)"
  by (simp add: checkLimits_def awaitCapacity_def resetCounters_def time_time_def
      waitLoop.simps limitsExceeded_def issueRequest_def requests_get_def
      sampleWorld_def errorWorld_def nearlyFullClient_def okResponse_def Let_def)

lemma error_admit_example:
  "awaitCapacity nearlyFullClient errorWorld =
     Some (nearlyFullClient, errorWorld\<lparr>now := 1, reads := 1\<rparr>)"
  by (simp add: awaitCapacity_def resetCounters_def time_time_def
      waitLoop.simps limitsExceeded_def
      sampleWorld_def errorWorld_def nearlyFullClient_def Let_def)

theorem checkLimits_accounting_witness:
  "checkLimits nearlyFullClient errorWorld ''u'' =
     Some (Inl (RequestError 503),
           nearlyFullClient\<lparr>requestsMade := 100, dataReceived := 104857601, errorsMade := 1\<rparr>,
           errorWorld\<lparr>now := 1, reads := 1, sent := 1\<rparr>)
   \<and> awaitCapacity nearlyFullClient errorWorld =
     Some (nearlyFullClient, errorWorld\<lparr>now := 1, reads := 1\<rparr>)
   \<and> server (errorWorld\<lparr>now := 1, reads := 1\<rparr>) (sent (errorWorld\<lparr>now := 1, reads := 1\<rparr>)) ''u''
       = Some (okResponse\<lparr>status_code := 503\<rparr>)
   \<and> status_code (okResponse\<lparr>status_code := 503\<rparr>) \<noteq> 200
   \<and> errorsMade (nearlyFullClient\<lparr>requestsMade := 100, dataReceived := 104857601,
         errorsMade := 1\<rparr>) = errorsMade nearlyFullClient + 1"
proof -
  have s: "server (errorWorld\<lparr>now := 1, reads := 1\<rparr>)
             (sent (errorWorld\<lparr>now := 1, reads := 1\<rparr>)) ''u''
           = Some (okResponse\<lparr>status_code := 503\<rparr>)"
    by (simp add: errorWorld_def sampleWorld_def)
  have n: "status_code (okResponse\<lparr>status_code := 503\<rparr>) \<noteq> 200" by simp
  from checkLimits_accounting[OF error_example error_admit_example s] n
    error_example error_admit_example s
  show ?thesis by blast
qed

lemma checkLimits_diverges:
  assumes "requestLimit c = 0 \<or> dataLimit c = 0 \<or> errorLimit c = 0"
    and "0 \<le> requestsMade c" "0 \<le> dataReceived c" "0 \<le> errorsMade c"
  shows "checkLimits c w url = None"
proof -
  obtain c0 w0 where r: "resetCounters c w = (c0, w0)" by (cases "resetCounters c w")
  from resetCounters_cases[of c w] r
  have "c0 = c \<or> (countersZero c0 \<and> sameLimits c c0)" by auto
  with assms have "(requestLimit c0 = 0 \<or> dataLimit c0 = 0 \<or> errorLimit c0 = 0)
      \<and> 0 \<le> requestsMade c0 \<and> 0 \<le> dataReceived c0 \<and> 0 \<le> errorsMade c0"
    by (auto simp: countersZero_def sameLimits_def)
  then have "waitLoop c0 w0 = None" using waitLoop_diverges by blast
  with r show ?thesis by (simp add: checkLimits_def awaitCapacity_def)
qed

text \<open>
  Claim C9. When \<open>requestLimit\<close>, \<open>dataLimit\<close> and \<open>errorLimit\<close> are all
  strictly positive and time advances before every clock reading, the wait loop
  terminates from every starting state, after at most one pass: that pass rolls
  the window over and zeroes the counters, which is below every positive limit.
  When some limit is 0 (counters being non-negative, as they always are), the loop
  never ends and the call never returns. The data limit in bytes is positive
  exactly when the limit in megabytes given at construction is.
\<close>

theorem waitLoop_terminates_iff_positive:
  "(0 < requestLimit c \<and> 0 < dataLimit c \<and> 0 < errorLimit c \<and> (\<forall>k. 0 < elapse w k) \<longrightarrow>
      waitLoop c w = Some (if limitsExceeded c then waitStep c w else (c, w))
      \<and> (limitsExceeded c \<longrightarrow>
            requestsMade (fst (waitStep c w)) = 0 \<and> dataReceived (fst (waitStep c w)) = 0
            \<and> errorsMade (fst (waitStep c w)) = 0))
   \<and> ((requestLimit c = 0 \<or> dataLimit c = 0 \<or> errorLimit c = 0)
        \<and> 0 \<le> requestsMade c \<and> 0 \<le> dataReceived c \<and> 0 \<le> errorsMade c \<longrightarrow>
      waitLoop c w = None \<and> checkLimits c w url = None)
   \<and> (0 < dataLimit (fst (init key reqLimit dataLimitMb errLimit w)) \<longleftrightarrow> 0 < dataLimitMb)"
proof (intro conjI)
  show "0 < requestLimit c \<and> 0 < dataLimit c \<and> 0 < errorLimit c \<and> (\<forall>k. 0 < elapse w k) \<longrightarrow>
      waitLoop c w = Some (if limitsExceeded c then waitStep c w else (c, w))
      \<and> (limitsExceeded c \<longrightarrow>
            requestsMade (fst (waitStep c w)) = 0 \<and> dataReceived (fst (waitStep c w)) = 0
            \<and> errorsMade (fst (waitStep c w)) = 0)"
  proof
    assume h: "0 < requestLimit c \<and> 0 < dataLimit c \<and> 0 < errorLimit c \<and> (\<forall>k. 0 < elapse w k)"
    then have l: "waitLoop c w = Some (if limitsExceeded c then waitStep c w else (c, w))"
      using waitLoop_one_pass by blast
    from h have "0 < elapse w (Suc (reads w))" "0 \<le> elapse w (reads w)"
      by (simp_all add: less_imp_le)
    from waitStep_resets[OF this, of c] l
    show "waitLoop c w = Some (if limitsExceeded c then waitStep c w else (c, w))
      \<and> (limitsExceeded c \<longrightarrow>
            requestsMade (fst (waitStep c w)) = 0 \<and> dataReceived (fst (waitStep c w)) = 0
            \<and> errorsMade (fst (waitStep c w)) = 0)"
      by (simp add: countersZero_def)
  qed
next
  show "(requestLimit c = 0 \<or> dataLimit c = 0 \<or> errorLimit c = 0)
        \<and> 0 \<le> requestsMade c \<and> 0 \<le> dataReceived c \<and> 0 \<le> errorsMade c \<longrightarrow>
      waitLoop c w = None \<and> checkLimits c w url = None"
    using waitLoop_diverges checkLimits_diverges by blast
next
  show "0 < dataLimit (fst (init key reqLimit dataLimitMb errLimit w)) \<longleftrightarrow> 0 < dataLimitMb"
    by (simp add: init_def Let_def split: prod.splits)
qed

theorem waitLoop_terminates_iff_positive_witness:
  "0 < requestLimit fullClient \<and> 0 < dataLimit fullClient \<and> 0 < errorLimit fullClient
   \<and> (\<forall>k. 0 < elapse sampleWorld k) \<and> limitsExceeded fullClient
   \<and> waitLoop fullClient sampleWorld = Some (waitStep fullClient sampleWorld)
   \<and> requestsMade (fst (waitStep fullClient sampleWorld)) = 0
   \<and> requestLimit zeroLimitClient = 0
   \<and> 0 \<le> requestsMade zeroLimitClient \<and> 0 \<le> dataReceived zeroLimitClient
   \<and> 0 \<le> errorsMade zeroLimitClient
   \<and> waitLoop zeroLimitClient sampleWorld = None
   \<and> checkLimits zeroLimitClient sampleWorld ''u'' = None"
proof -
  have p: "0 < requestLimit fullClient \<and> 0 < dataLimit fullClient \<and> 0 < errorLimit fullClient
      \<and> (\<forall>k. 0 < elapse sampleWorld k)"
    by (simp add: fullClient_def nearlyFullClient_def sampleWorld_def)
  have e: "limitsExceeded fullClient"
    by (simp add: limitsExceeded_def fullClient_def nearlyFullClient_def)
  have z: "(requestLimit zeroLimitClient = 0 \<or> dataLimit zeroLimitClient = 0
              \<or> errorLimit zeroLimitClient = 0)
      \<and> 0 \<le> requestsMade zeroLimitClient \<and> 0 \<le> dataReceived zeroLimitClient
      \<and> 0 \<le> errorsMade zeroLimitClient"
    and z0: "requestLimit zeroLimitClient = 0"
    by (simp_all add: zeroLimitClient_def nearlyFullClient_def)
  from waitLoop_terminates_iff_positive[of fullClient sampleWorld] p e
  have a: "waitLoop fullClient sampleWorld = Some (waitStep fullClient sampleWorld)
     \<and> requestsMade (fst (waitStep fullClient sampleWorld)) = 0"
    by simp
  from waitLoop_terminates_iff_positive[of zeroLimitClient sampleWorld "''u''"] z
  have b: "waitLoop zeroLimitClient sampleWorld = None
     \<and> checkLimits zeroLimitClient sampleWorld ''u'' = None"
    by blast
  from p e z z0 a b show ?thesis by blast
qed

section \<open>Properties of the catalog build\<close>

lemmas limiter_eval =
  sendRequest_def checkLimits_def awaitCapacity_def resetCounters_def time_time_def
  waitLoop.simps limitsExceeded_def issueRequest_def requests_get_def Let_def

lemmas builder_eval =
  resultsField_def subscript_def extractDataSets_def py_iter_def dataSetRow_def
  dict_get_def extractParamInfo_def paramRow_def ensureResponseIsList_def
  updateParametersLists_def asList_def isOne_def emptyToNa_def BeaDataSet_def
  extractValidInputs_def isSpecialYear_def list_index_def dict_keys_def
  yearRow_def plainRow_def entryAt_def py_str_def
  allDatasetsUrl_def parameterListUrl_def paramInputValuesUrl_def

lemmas sample_eval =
  sampleWorld_def freshClient_def jsonResponse_def beaResult_def nipaDataset_def
  yearParameter_def yearEntry_def catalogWorld_def bareDatasetWorld_def

lemma bare_dataset_fails: "extractDataSets nipaDataset = Inl AttributeError"
  by (simp add: builder_eval sample_eval)

lemma listed_dataset_ok:
  "extractDataSets (PList [nipaDataset]) = Inr ([PStr ''NIPA''], [PStr ''Standard NIPA tables''])"
  by (simp add: builder_eval sample_eval)

lemma bare_dataset_build:
  "downloadBeaDatasets rp freshClient bareDatasetWorld =
     Some (Inl AttributeError, freshClient\<lparr>requestsMade := 1, dataReceived := 2\<rparr>,
           bareDatasetWorld\<lparr>now := 1, reads := 1, sent := 1\<rparr>)"
  by (simp add: downloadBeaDatasets_def limiter_eval builder_eval sample_eval)


lemma year_build:
  "downloadBeaDatasets rp freshClient (catalogWorld yearEntry) =
     Some (Inr [\<lparr>dataSetName = PStr ''NIPA'',
      dataSetDescription = PStr ''Standard NIPA tables'',
      parameters = PList [PStr ''Year''],
      parametersDescriptions = PList [PStr ''List of years''],
      parametersRequiredInRequest = PList [PBool True],
      parametersDefaultValues = PList [PStr ''N/a''],
      parametersMultipleValsAcceptedInRequest = PList [PBool True],
      parametersAllValueRequest = PList [PStr ''ALL''],
      parameterInputs = PList [PList [PDict [(''TableName'', PStr ''T1''),
          (''Annual year Range'', PStr ''1990-2020''),
          (''Quarterly Year Range'', PStr ''1999-2020''),
          (''Monthly Year Range'', PStr ''2015-2020'')]]],
      parameterInputsDescriptions = PList [PList [PStr
          ''Year ranges for annual, quarterly, and monthly data from table: T1'']],
      urlParamInputs = []\<rparr>], freshClient\<lparr>requestsMade := 3, dataReceived := 6\<rparr>,
           catalogWorld yearEntry\<lparr>now := 3, reads := 3, sent := 3\<rparr>)"
  by (simp add: downloadBeaDatasets_def buildDataSet_def limiter_eval builder_eval sample_eval)


lemma mapE_all:
  "(\<forall>x \<in> set xs. f x = Inr (g x)) \<Longrightarrow> mapE f xs = Inr (map g xs)"
  by (induction xs) auto

lemma ensureResponseIsList_dict: "ensureResponseIsList (PDict kvs) = [PDict kvs]"
  by (simp add: ensureResponseIsList_def)

lemma extractParamInfo_bare:
  "extractParamInfo (PDict kvs) = extractParamInfo (PList [PDict kvs])"
  by (simp add: extractParamInfo_def ensureResponseIsList_def)

lemma extractParamInfo_single:
  "extractParamInfo (PDict kvs) = Inr (ns, ds, rs, dvs, ms, avs) \<Longrightarrow>
     length ns = 1 \<and> ns = [case map_of kvs ''ParameterName'' of Some v \<Rightarrow> v | None \<Rightarrow> PStr ''N/A'']"
  by (auto simp: extractParamInfo_def ensureResponseIsList_def paramRow_def dict_get_def
      split: sum.splits)

lemma extractValidInputs_bare:
  "extractValidInputs rp (PDict kvs) n p = extractValidInputs rp (PList [PDict kvs]) n p"
  by (simp add: extractValidInputs_def ensureResponseIsList_def)

text \<open>
  Claim C7. A bare object is coerced into a one-element list for the parameter
  list (\<open>extractParamInfo_bare\<close>, \<open>extractParamInfo_single\<close>) and for the
  valid-input list (\<open>extractValidInputs_bare\<close>), but not for the dataset list:
  \<^verbatim>\<open>extractDataSets\<close> iterates its argument as it is, so a dataset list that is
  one bare object is iterated key by key and the first key, a string, has no
  \<^verbatim>\<open>get\<close>. The same object inside a list is extracted, and the build on a server
  that answers with the bare object fails.
\<close>

theorem extractDataSets_bare_object:
  "extractDataSets nipaDataset = Inl AttributeError
   \<and> extractDataSets (PList [nipaDataset])
       = Inr ([PStr ''NIPA''], [PStr ''Standard NIPA tables''])
   \<and> downloadBeaDatasets (\<lambda>v. []) freshClient bareDatasetWorld =
     Some (Inl AttributeError, freshClient\<lparr>requestsMade := 1, dataReceived := 2\<rparr>,
           bareDatasetWorld\<lparr>now := 1, reads := 1, sent := 1\<rparr>)"
  using bare_dataset_fails listed_dataset_ok bare_dataset_build by simp

lemma yearRow_ok:
  assumes "7 \<le> length ks" and "\<forall>k<7. subscript e (ks ! k) = Inr (val e k)"
  shows "yearRow rp ks e =
     Inr (PDict [(''TableName'', val e 0),
                 (''Annual year Range'', PStr (py_str rp (val e 1) @ ''-'' @ py_str rp (val e 2))),
                 (''Quarterly Year Range'', PStr (py_str rp (val e 3) @ ''-'' @ py_str rp (val e 4))),
                 (''Monthly Year Range'', PStr (py_str rp (val e 5) @ ''-'' @ py_str rp (val e 6)))],
          PStr (''Year ranges for annual, quarterly, and monthly data from table: ''
                @ py_str rp (val e 0)))"
proof -
  have "\<And>k. k < 7 \<Longrightarrow> entryAt ks e k = Inr (val e k)"
    using assms by (simp add: entryAt_def list_index_def)
  then show ?thesis by (simp add: yearRow_def)
qed

text \<open>
  Claim C8. For the datasets \<open>NIPA\<close>, \<open>NIUnderlyingDetail\<close> and \<open>FixedAssets\<close>
  and the parameter \<open>Year\<close>, every entry of the valid-input response becomes a
  record of the table name and the annual, quarterly and monthly ranges, each
  range being \<open>start-end\<close>, read from the entry under the first seven keys (in key
  order) of the first entry, with the description
  \<open>Year ranges for annual, quarterly, and monthly data from table: \<close> followed by
  the table name. \<open>val e k\<close> is the value of entry \<open>e\<close> under the \<open>k\<close>-th key.
\<close>

theorem extractValidInputs_year_record:
  assumes "dsName \<in> {PStr ''NIPA'', PStr ''NIUnderlyingDetail'', PStr ''FixedAssets''}"
    and "prmName = PStr ''Year''"
    and "ensureResponseIsList inputs = PDict kvs # rest"
    and "ks = map fst kvs"
    and "7 \<le> length ks"
    and "\<forall>e \<in> set (PDict kvs # rest). \<forall>k<7. subscript e (ks ! k) = Inr (val e k)"
  shows "extractValidInputs rp inputs dsName prmName =
     Inr (map (\<lambda>e. PDict [(''TableName'', val e 0),
                 (''Annual year Range'', PStr (py_str rp (val e 1) @ ''-'' @ py_str rp (val e 2))),
                 (''Quarterly Year Range'', PStr (py_str rp (val e 3) @ ''-'' @ py_str rp (val e 4))),
                 (''Monthly Year Range'', PStr (py_str rp (val e 5) @ ''-'' @ py_str rp (val e 6)))])
            (PDict kvs # rest),
          map (\<lambda>e. PStr (''Year ranges for annual, quarterly, and monthly data from table: ''
                @ py_str rp (val e 0)))
            (PDict kvs # rest))"
proof -
  let ?row = "\<lambda>e. (PDict [(''TableName'', val e 0),
                 (''Annual year Range'', PStr (py_str rp (val e 1) @ ''-'' @ py_str rp (val e 2))),
                 (''Quarterly Year Range'', PStr (py_str rp (val e 3) @ ''-'' @ py_str rp (val e 4))),
                 (''Monthly Year Range'', PStr (py_str rp (val e 5) @ ''-'' @ py_str rp (val e 6)))],
          PStr (''Year ranges for annual, quarterly, and monthly data from table: ''
                @ py_str rp (val e 0)))"
  have sp: "isSpecialYear dsName prmName"
    using assms(1,2) by (auto simp: isSpecialYear_def)
  have "\<forall>e \<in> set (PDict kvs # rest). yearRow rp ks e = Inr (?row e)"
    using yearRow_ok[OF assms(5)] assms(6) by blast
  then have m: "mapE (yearRow rp ks) (PDict kvs # rest) = Inr (map ?row (PDict kvs # rest))"
    by (rule mapE_all)
  show ?thesis
    unfolding extractValidInputs_def Let_def assms(3)
    using sp m assms(4)
    by (simp add: list_index_def dict_keys_def comp_def)
qed

theorem extractValidInputs_year_record_witness:
  "PStr ''NIPA'' \<in> {PStr ''NIPA'', PStr ''NIUnderlyingDetail'', PStr ''FixedAssets''}
   \<and> ensureResponseIsList (PList [yearEntry]) = [yearEntry]
   \<and> extractValidInputs (\<lambda>v. []) (PList [yearEntry]) (PStr ''NIPA'') (PStr ''Year'') =
     Inr ([PDict [(''TableName'', PStr ''T1''),
                  (''Annual year Range'', PStr ''1990-2020''),
                  (''Quarterly Year Range'', PStr ''1999-2020''),
                  (''Monthly Year Range'', PStr ''2015-2020'')]],
          [PStr ''Year ranges for annual, quarterly, and monthly data from table: T1''])"
proof -
  let ?kvs = "[(''Table'', PStr ''T1''), (''A1'', PStr ''1990''), (''A2'', PStr ''2020''),
            (''Q1'', PStr ''1999''), (''Q2'', PStr ''2020''),
            (''M1'', PStr ''2015''), (''M2'', PStr ''2020'')]"
  have a: "PStr ''NIPA'' \<in> {PStr ''NIPA'', PStr ''NIUnderlyingDetail'', PStr ''FixedAssets''}"
    by simp
  have b: "ensureResponseIsList (PList [yearEntry]) = PDict ?kvs # []"
    by (simp add: ensureResponseIsList_def yearEntry_def)
  have c: "7 \<le> length (map fst ?kvs)" by simp
  have d: "\<forall>e \<in> set (PDict ?kvs # []). \<forall>k<7. subscript e (map fst ?kvs ! k) = Inr (yearVals e k)"
    by (simp add: subscript_def yearVals_def eval_nat_numeral All_less_Suc)
  from extractValidInputs_year_record[OF a refl b refl c d, of "\<lambda>v. []"] b
  show ?thesis by (simp add: yearVals_def py_str_def yearEntry_def)
qed










section \<open>Properties of the cache file\<close>

lemma getFiscalQuarter_table:
  "1 \<le> month d \<Longrightarrow> month d \<le> 12 \<Longrightarrow> getFiscalQuarter d = (month d + 2) div 3"
proof -
  assume "1 \<le> month d" "month d \<le> 12"
  then have "month d = 1 \<or> month d = 2 \<or> month d = 3 \<or> month d = 4 \<or> month d = 5
      \<or> month d = 6 \<or> month d = 7 \<or> month d = 8 \<or> month d = 9 \<or> month d = 10
      \<or> month d = 11 \<or> month d = 12" by arith
  moreover have "\<lceil>(1::real) / 3\<rceil> = 1" by (simp add: ceiling_eq_iff)
  ultimately show ?thesis
    by (auto simp: getFiscalQuarter_def)
qed

lemma fresh_example:
  "readBeaDataSets sampleLib freshClient (cachedWorld ''2024-04-10'') cacheName =
     Some (Inr (Some []), freshClient, (cachedWorld ''2024-04-10'')\<lparr>now := 3, reads := 1\<rparr>)"
  by (simp add: readBeaDataSets_def cachedWorld_def sampleWorld_def sampleLib_def
      cacheName_def LF_def CR_def lineAt_def strip_def isspace_def datetime_now_def
      time_time_def time_sleep_def getFiscalQuarter_def Let_def)

lemma future_example:
  "readBeaDataSets sampleLib freshClient (cachedWorld ''2025-04-10'') cacheName =
     Some (Inr (Some []), freshClient, (cachedWorld ''2025-04-10'')\<lparr>now := 3, reads := 1\<rparr>)"
  by (simp add: readBeaDataSets_def cachedWorld_def sampleWorld_def sampleLib_def
      cacheName_def LF_def CR_def lineAt_def strip_def isspace_def datetime_now_def
      time_time_def time_sleep_def getFiscalQuarter_def Let_def)

lemmas cache_eval =
  readBeaDataSets_def refresh_def writeDataSetsToFile_def lineAt_def strip_def isspace_def
  datetime_now_def time_time_def time_sleep_def getFiscalQuarter_def LF_def CR_def NUL_def
  cacheName_def sampleLib_def Let_def

lemma stale_example:
  "readBeaDataSets sampleLib freshClient staleWorld cacheName =
     Some (Inr (Some []), freshClient\<lparr>requestsMade := 1, dataReceived := 2\<rparr>,
           staleWorld\<lparr>now := 5, reads := 3, sent := 1,
             files := (\<lambda>name. if name = cacheName then Some (''2024-04-10'' @ [LF]) else None)\<rparr>)"
  by (simp add: cache_eval staleWorld_def sampleWorld_def freshClient_def
      downloadBeaDatasets_def sendRequest_def checkLimits_def awaitCapacity_def
      resetCounters_def waitLoop.simps limitsExceeded_def issueRequest_def requests_get_def
      resultsField_def subscript_def extractDataSets_def py_iter_def allDatasetsUrl_def
      jsonResponse_def beaResult_def fun_eq_iff)

text \<open>
  Claim C5, as the code has it. For a cache file whose first line parses as a
  date: when the current date is in the same fiscal quarter and the current year
  is not later than the stored year (the same year in particular),
  \<^verbatim>\<open>readBeaDataSets\<close> sends no request, leaves the file as it is and returns the
  stored records (or \<^verbatim>\<open>None\<close> when one does not parse); when the current year is
  later than the stored year or the quarters differ, it runs the builder and, when
  the build and the write succeed, returns the built catalog after writing it to
  the file (a failure of either gives \<^verbatim>\<open>None\<close>). The file then holds the date
  line followed by what \<^verbatim>\<open>writeDataSetsToFile\<close> writes for the catalog.
\<close>

theorem readBeaDataSets_freshness:
  assumes "files w filename = Some stored"
    and "strptime L (strip (lineAt (lines_of (universal_newlines stored)) 0)) = Some fileDate"
    and "datetime_now w = (currentDate, w1)"
  shows "(\<not> year currentDate > year fileDate
          \<and> getFiscalQuarter currentDate = getFiscalQuarter fileDate \<longrightarrow>
            readBeaDataSets L c w filename =
              Some (Inr (case readDataSets L (drop 1 (lines_of (universal_newlines stored))) of
                           Inl e \<Rightarrow> None | Inr ds \<Rightarrow> Some ds),
                    c, time_sleep 2 w1)
            \<and> sent (time_sleep 2 w1) = sent w \<and> files (time_sleep 2 w1) = files w)
       \<and> (year currentDate > year fileDate
          \<or> getFiscalQuarter currentDate \<noteq> getFiscalQuarter fileDate \<longrightarrow>
            readBeaDataSets L c w filename =
              (case downloadBeaDatasets (py_repr L) c w1 of
                 None \<Rightarrow> None
               | Some (Inl e, c1, w2) \<Rightarrow> Some (Inr None, c1, time_sleep 2 w2)
               | Some (Inr ds, c1, w2) \<Rightarrow>
                   (case writeDataSetsToFile L ds filename w2 of
                      (Inl e, w3) \<Rightarrow> Some (Inr None, c1, time_sleep 2 w3)
                    | (Inr u, w3) \<Rightarrow> Some (Inr (Some ds), c1, time_sleep 2 w3))))
       \<and> (\<forall>ds w2 w3. writeDataSetsToFile L ds filename w2 = (Inr (), w3) \<longrightarrow>
            files w3 filename
              = Some (snd (writeAll L ds (strftime L (fst (datetime_now w2)) @ [LF]))))"
proof (intro conjI)
  show "\<not> year currentDate > year fileDate
          \<and> getFiscalQuarter currentDate = getFiscalQuarter fileDate \<longrightarrow>
            readBeaDataSets L c w filename =
              Some (Inr (case readDataSets L (drop 1 (lines_of (universal_newlines stored))) of
                           Inl e \<Rightarrow> None | Inr ds \<Rightarrow> Some ds),
                    c, time_sleep 2 w1)
            \<and> sent (time_sleep 2 w1) = sent w \<and> files (time_sleep 2 w1) = files w"
  proof
    assume h: "\<not> year currentDate > year fileDate
          \<and> getFiscalQuarter currentDate = getFiscalQuarter fileDate"
    from assms(3) have w1: "sent w1 = sent w" "files w1 = files w"
      by (auto simp: datetime_now_def time_time_def Let_def)
    from assms h have "readBeaDataSets L c w filename =
              Some (Inr (case readDataSets L (drop 1 (lines_of (universal_newlines stored))) of
                           Inl e \<Rightarrow> None | Inr ds \<Rightarrow> Some ds),
                    c, time_sleep 2 w1)"
      by (simp add: readBeaDataSets_def Let_def split: sum.splits)
    with w1 show "readBeaDataSets L c w filename =
              Some (Inr (case readDataSets L (drop 1 (lines_of (universal_newlines stored))) of
                           Inl e \<Rightarrow> None | Inr ds \<Rightarrow> Some ds),
                    c, time_sleep 2 w1)
            \<and> sent (time_sleep 2 w1) = sent w \<and> files (time_sleep 2 w1) = files w"
      by (simp add: time_sleep_def)
  qed
next
  show "year currentDate > year fileDate
          \<or> getFiscalQuarter currentDate \<noteq> getFiscalQuarter fileDate \<longrightarrow>
            readBeaDataSets L c w filename =
              (case downloadBeaDatasets (py_repr L) c w1 of
                 None \<Rightarrow> None
               | Some (Inl e, c1, w2) \<Rightarrow> Some (Inr None, c1, time_sleep 2 w2)
               | Some (Inr ds, c1, w2) \<Rightarrow>
                   (case writeDataSetsToFile L ds filename w2 of
                      (Inl e, w3) \<Rightarrow> Some (Inr None, c1, time_sleep 2 w3)
                    | (Inr u, w3) \<Rightarrow> Some (Inr (Some ds), c1, time_sleep 2 w3)))"
  proof
    assume h: "year currentDate > year fileDate
          \<or> getFiscalQuarter currentDate \<noteq> getFiscalQuarter fileDate"
    with assms have "readBeaDataSets L c w filename = refresh L True c w1 filename"
      by (auto simp: readBeaDataSets_def Let_def)
    then show "readBeaDataSets L c w filename =
              (case downloadBeaDatasets (py_repr L) c w1 of
                 None \<Rightarrow> None
               | Some (Inl e, c1, w2) \<Rightarrow> Some (Inr None, c1, time_sleep 2 w2)
               | Some (Inr ds, c1, w2) \<Rightarrow>
                   (case writeDataSetsToFile L ds filename w2 of
                      (Inl e, w3) \<Rightarrow> Some (Inr None, c1, time_sleep 2 w3)
                    | (Inr u, w3) \<Rightarrow> Some (Inr (Some ds), c1, time_sleep 2 w3)))"
      by (simp add: refresh_def split: option.splits sum.splits prod.splits)
  qed
next
  show "\<forall>ds w2 w3. writeDataSetsToFile L ds filename w2 = (Inr (), w3) \<longrightarrow>
            files w3 filename
              = Some (snd (writeAll L ds (strftime L (fst (datetime_now w2)) @ [LF])))"
    by (auto simp: writeDataSetsToFile_def Let_def split: prod.splits option.splits)
qed

text \<open>
  The claim as stated fails for a stored year later than the current one: with a
  file dated 2025-04-10 read on 2024-04-10 the years differ, and the cache is
  used: no request is sent and the file is left as it is.
\<close>

theorem readBeaDataSets_future_year_counterexample:
  "files (cachedWorld ''2025-04-10'') cacheName = Some (''2025-04-10'' @ [LF])
   \<and> strptime sampleLib ''2025-04-10'' = Some \<lparr>year = 2025, month = 4, day = 10\<rparr>
   \<and> fst (datetime_now (cachedWorld ''2025-04-10'')) = \<lparr>year = 2024, month = 4, day = 10\<rparr>
   \<and> year \<lparr>year = 2025, month = 4, day = 10\<rparr> \<noteq> year \<lparr>year = 2024, month = 4, day = 10\<rparr>
   \<and> readBeaDataSets sampleLib freshClient (cachedWorld ''2025-04-10'') cacheName =
       Some (Inr (Some []), freshClient, (cachedWorld ''2025-04-10'')\<lparr>now := 3, reads := 1\<rparr>)
   \<and> sent ((cachedWorld ''2025-04-10'')\<lparr>now := 3, reads := 1\<rparr>) = sent (cachedWorld ''2025-04-10'')
   \<and> files ((cachedWorld ''2025-04-10'')\<lparr>now := 3, reads := 1\<rparr>) = files (cachedWorld ''2025-04-10'')"
  using future_example
  by (simp add: cachedWorld_def sampleWorld_def sampleLib_def datetime_now_def time_time_def
      Let_def)

theorem readBeaDataSets_freshness_witness:
  "files (cachedWorld ''2024-04-10'') cacheName = Some (''2024-04-10'' @ [LF])
   \<and> strptime sampleLib (strip (lineAt (lines_of (universal_newlines (''2024-04-10'' @ [LF]))) 0))
       = Some \<lparr>year = 2024, month = 4, day = 10\<rparr>
   \<and> datetime_now (cachedWorld ''2024-04-10'')
       = (\<lparr>year = 2024, month = 4, day = 10\<rparr>, (cachedWorld ''2024-04-10'')\<lparr>now := 1, reads := 1\<rparr>)
   \<and> readBeaDataSets sampleLib freshClient (cachedWorld ''2024-04-10'') cacheName =
       Some (Inr (Some []), freshClient, (cachedWorld ''2024-04-10'')\<lparr>now := 3, reads := 1\<rparr>)
   \<and> sent ((cachedWorld ''2024-04-10'')\<lparr>now := 3, reads := 1\<rparr>) = sent (cachedWorld ''2024-04-10'')
   \<and> getFiscalQuarter \<lparr>year = 2024, month = 4, day = 10\<rparr>
       \<noteq> getFiscalQuarter \<lparr>year = 2024, month = 2, day = 1\<rparr>
   \<and> readBeaDataSets sampleLib freshClient staleWorld cacheName =
     Some (Inr (Some []), freshClient\<lparr>requestsMade := 1, dataReceived := 2\<rparr>,
           staleWorld\<lparr>now := 5, reads := 3, sent := 1,
             files := (\<lambda>name. if name = cacheName then Some (''2024-04-10'' @ [LF]) else None)\<rparr>)"
proof -
  let ?w = "cachedWorld ''2024-04-10''"
  let ?d = "\<lparr>year = 2024, month = 4, day = 10\<rparr>"
  have f: "files ?w cacheName = Some (''2024-04-10'' @ [LF])"
    by (simp add: cachedWorld_def)
  have p: "strptime sampleLib
             (strip (lineAt (lines_of (universal_newlines (''2024-04-10'' @ [LF]))) 0)) = Some ?d"
    by (simp add: sampleLib_def lineAt_def strip_def isspace_def LF_def CR_def)
  have n: "datetime_now ?w = (?d, ?w\<lparr>now := 1, reads := 1\<rparr>)"
    by (simp add: datetime_now_def time_time_def cachedWorld_def sampleWorld_def Let_def)
  have q: "\<not> year ?d > year ?d \<and> getFiscalQuarter ?d = getFiscalQuarter ?d" by simp
  have r: "readDataSets sampleLib (drop 1 (lines_of (universal_newlines (''2024-04-10'' @ [LF])))) = Inr []"
    by (simp add: LF_def CR_def)
  have t: "time_sleep 2 (?w\<lparr>now := 1, reads := 1\<rparr>) = ?w\<lparr>now := 3, reads := 1\<rparr>"
    by (simp add: time_sleep_def)
  from readBeaDataSets_freshness[OF f p n, of freshClient] q r t
  have a: "readBeaDataSets sampleLib freshClient ?w cacheName =
       Some (Inr (Some []), freshClient, ?w\<lparr>now := 3, reads := 1\<rparr>)
     \<and> sent (?w\<lparr>now := 3, reads := 1\<rparr>) = sent ?w"
    by simp
  have g: "getFiscalQuarter ?d \<noteq> getFiscalQuarter \<lparr>year = 2024, month = 2, day = 1\<rparr>"
    by (simp add: getFiscalQuarter_def)
  from f p n a g stale_example show ?thesis by blast
qed

lemma isspace_LF: "isspace LF"
  by (simp add: isspace_def LF_def)

lemma strip_snoc_LF: "strip (s @ [LF]) = strip s"
proof (cases "\<forall>ch \<in> set s. isspace ch")
  case True
  then have "dropWhile isspace s = []" by simp
  moreover have "dropWhile isspace (s @ [LF]) = []"
    unfolding dropWhile_eq_Nil_conv using True by (simp add: isspace_LF)
  ultimately show ?thesis by (simp only: strip_def)
next
  case False
  then have "dropWhile isspace (s @ [LF]) = dropWhile isspace s @ [LF]"
    by (auto simp: dropWhile_append)
  then show ?thesis by (simp add: strip_def isspace_LF)
qed

lemma universal_newlines_id: "CR \<notin> set s \<Longrightarrow> universal_newlines s = s"
  by (induction s rule: universal_newlines.induct) auto

lemma lines_of_line: "LF \<notin> set s \<Longrightarrow> lines_of (s @ LF # rest) = (s @ [LF]) # lines_of rest"
  by (induction s) auto

lemma lines_of_join:
  "(\<forall>l \<in> set ls. LF \<notin> set l) \<Longrightarrow> lines_of (joinLines ls @ rest) = map (\<lambda>l. l @ [LF]) ls @ lines_of rest"
proof (induction ls)
  case Nil
  then show ?case by (simp add: joinLines_def)
next
  case (Cons l ls)
  then have "lines_of (l @ LF # (joinLines ls @ rest)) = (l @ [LF]) # lines_of (joinLines ls @ rest)"
    by (simp add: lines_of_line)
  with Cons show ?case by (simp add: joinLines_def)
qed

lemma writeDataSet_block:
  assumes "roundTrips L d"
  shows "writeDataSet L d buf = (None, buf @ joinLines (blockLines L d))"
  using assms
  by (auto simp: roundTrips_def writeDataSet_def plusNewline_def strLine_def joinLines_def
      blockLines_def py_str_def split: pyval.splits)

lemma writeAll_blocks:
  "\<forall>d \<in> set ds. roundTrips L d \<Longrightarrow>
     writeAll L ds buf = (None, buf @ concat (map (\<lambda>d. joinLines (blockLines L d)) ds))"
  by (induction ds arbitrary: buf) (auto simp: writeDataSet_block)

lemma lineAt_simps:
  "lineAt (x # xs) 0 = x"
  "lineAt (x # xs) (Suc k) = lineAt xs k"
  by (simp_all add: lineAt_def)

lemma parseList_storable:
  "storable L v \<Longrightarrow> parseList L (py_str (py_repr L) v @ [LF]) = Inr v"
  by (simp add: parseList_def storable_def strip_snoc_LF)

lemma block_plain:
  "roundTrips L d \<Longrightarrow> \<forall>l \<in> set (blockLines L d). LF \<notin> set l \<and> CR \<notin> set l"
  by (auto simp: roundTrips_def blockLines_def storable_def plainLine_def py_str_def
      NUL_def LF_def CR_def split: pyval.splits)

lemma readDataSets_block:
  assumes "roundTrips L d"
  shows "readDataSets L (map (\<lambda>l. l @ [LF]) (blockLines L d) @ rest) =
     (case readDataSets L rest of Inl e \<Rightarrow> Inl e | Inr ds \<Rightarrow> Inr (d # ds))"
proof -
  from assms obtain n s where n: "dataSetName d = PStr n" "n \<noteq> []" "strip n = n"
    and s: "dataSetDescription d = PStr s" "strip s = s"
    by (auto simp: roundTrips_def split: pyval.splits)
  from assms have st: "storable L (parameters d)" "storable L (parametersDescriptions d)"
    "storable L (parametersRequiredInRequest d)" "storable L (parametersDefaultValues d)"
    "storable L (parametersMultipleValsAcceptedInRequest d)"
    "storable L (parametersAllValueRequest d)" "storable L (parameterInputs d)"
    "storable L (parameterInputsDescriptions d)" and u: "urlParamInputs d = []"
    by (simp_all add: roundTrips_def)
  have eq: "(BeaDataSet (PStr n) (PStr s))
                  \<lparr>parameters := parameters d,
                   parametersDescriptions := parametersDescriptions d,
                   parametersRequiredInRequest := parametersRequiredInRequest d,
                   parametersDefaultValues := parametersDefaultValues d,
                   parametersMultipleValsAcceptedInRequest := parametersMultipleValsAcceptedInRequest d,
                   parametersAllValueRequest := parametersAllValueRequest d,
                   parameterInputs := parameterInputs d,
                   parameterInputsDescriptions := parameterInputsDescriptions d\<rparr> = d"
    using n s u by (cases d) (simp add: BeaDataSet_def)
  show ?thesis
    using n s eq
    by (simp add: blockLines_def py_str_def lineAt_simps eval_nat_numeral strip_snoc_LF
        parseList_storable[OF st(1), unfolded py_str_def]
        parseList_storable[OF st(2), unfolded py_str_def]
        parseList_storable[OF st(3), unfolded py_str_def]
        parseList_storable[OF st(4), unfolded py_str_def]
        parseList_storable[OF st(5), unfolded py_str_def]
        parseList_storable[OF st(6), unfolded py_str_def]
        parseList_storable[OF st(7), unfolded py_str_def]
        parseList_storable[OF st(8), unfolded py_str_def]
        split: sum.splits)
qed

lemma joinLines_no_CR:
  "\<forall>l \<in> set ls. CR \<notin> set l \<Longrightarrow> CR \<notin> set (joinLines ls)"
  by (induction ls) (auto simp: joinLines_def LF_def CR_def)

lemma blocks_no_CR:
  "\<forall>d \<in> set ds. roundTrips L d \<Longrightarrow>
     CR \<notin> set (concat (map (\<lambda>d. joinLines (blockLines L d)) ds))"
  using block_plain joinLines_no_CR by fastforce

lemma read_blocks:
  "\<forall>d \<in> set ds. roundTrips L d \<Longrightarrow>
     readDataSets L (lines_of (concat (map (\<lambda>d. joinLines (blockLines L d)) ds))) = Inr ds"
proof (induction ds)
  case Nil
  then show ?case by simp
next
  case (Cons d ds)
  then have rt: "roundTrips L d" and ih:
    "readDataSets L (lines_of (concat (map (\<lambda>d. joinLines (blockLines L d)) ds))) = Inr ds"
    by simp_all
  from block_plain[OF rt] have "\<forall>l \<in> set (blockLines L d). LF \<notin> set l" by blast
  from lines_of_join[OF this]
  have "lines_of (concat (map (\<lambda>d. joinLines (blockLines L d)) (d # ds)))
        = map (\<lambda>l. l @ [LF]) (blockLines L d)
          @ lines_of (concat (map (\<lambda>d. joinLines (blockLines L d)) ds))"
    by simp
  with readDataSets_block[OF rt] ih show ?case by simp
qed

text \<open>
  Claim C6, as the code has it. Take a catalog in which every dataset has a
  non-empty name and a description that are strings on one line without
  whitespace at either end, and eight list attributes that \<^verbatim>\<open>str\<close> prints on one
  line and \<^verbatim>\<open>eval\<close> reads back. When \<^verbatim>\<open>writeDataSetsToFile\<close> writes it and
  \<^verbatim>\<open>readBeaDataSets\<close> reads that file in the same year and fiscal quarter, the
  write succeeds and the read returns dataset objects equal to the originals in
  name, description and all eight lists.
\<close>

theorem cache_round_trip:
  assumes "\<forall>d \<in> set ds. roundTrips L d"
    and "datetime_now w = (writeDate, w0)"
    and "plainLine (strftime L writeDate)"
    and "strptime L (strip (strftime L writeDate)) = Some writeDate"
    and "writeDataSetsToFile L ds filename w = (r, w1)"
    and "files w2 filename = files w1 filename"
    and "datetime_now w2 = (readDate, w3)"
    and "year readDate = year writeDate"
    and "getFiscalQuarter readDate = getFiscalQuarter writeDate"
  shows "r = Inr () \<and>
         readBeaDataSets L c w2 filename = Some (Inr (Some ds), c, time_sleep 2 w3)"
proof -
  let ?date = "strftime L writeDate"
  let ?blocks = "concat (map (\<lambda>d. joinLines (blockLines L d)) ds)"
  from assms(2,5) writeAll_blocks[OF assms(1), of "?date @ [LF]"]
  have r: "r = Inr ()" and f1: "files w1 filename = Some (?date @ LF # ?blocks)"
    by (auto simp: writeDataSetsToFile_def Let_def)
  from assms(3) blocks_no_CR[OF assms(1)]
  have "CR \<notin> set (?date @ LF # ?blocks)"
    by (simp add: plainLine_def LF_def CR_def)
  then have un: "universal_newlines (?date @ LF # ?blocks) = ?date @ LF # ?blocks"
    by (rule universal_newlines_id)
  from assms(3) have ls: "lines_of (?date @ LF # ?blocks) = (?date @ [LF]) # lines_of ?blocks"
    using lines_of_line[of ?date ?blocks] by (simp add: plainLine_def)
  from assms(6) f1 have f2: "files w2 filename = Some (?date @ LF # ?blocks)" by simp
  have dl: "strptime L (strip (lineAt (lines_of (universal_newlines (?date @ LF # ?blocks))) 0))
              = Some writeDate"
    using assms(4) by (simp only: un ls lineAt_simps strip_snoc_LF)
  have rd: "readDataSets L (drop (Suc 0) (lines_of (universal_newlines (?date @ LF # ?blocks)))) = Inr ds"
    using read_blocks[OF assms(1)] by (simp only: un ls drop_Suc_Cons drop_0)
  show ?thesis
    using r assms(7,8,9)
    by (simp add: readBeaDataSets_def f2 dl rd Let_def del: universal_newlines.simps lines_of.simps)
qed

lemma plain_roundTrips: "roundTrips sampleLib plainDataSet"
  by (simp add: roundTrips_def plainDataSet_def BeaDataSet_def storable_def plainLine_def
      py_str_def sampleLib_def strip_def isspace_def LF_def CR_def)

lemma write_plain_example:
  "writeDataSetsToFile sampleLib [plainDataSet] cacheName sampleWorld =
     (Inr (), sampleWorld\<lparr>now := 1, reads := 1,
        files := (files sampleWorld)(cacheName := Some (''2024-04-10'' @ [LF]
          @ ''NIPA'' @ [LF] @ ''Standard NIPA tables'' @ [LF]
          @ ''[]'' @ [LF] @ ''[]'' @ [LF] @ ''[]'' @ [LF] @ ''[]'' @ [LF]
          @ ''[]'' @ [LF] @ ''[]'' @ [LF] @ ''[]'' @ [LF] @ ''[]'' @ [LF] @ [NUL, LF]))\<rparr>)"
  by (simp add: writeDataSetsToFile_def writeDataSet_def plusNewline_def strLine_def
      py_str_def plainDataSet_def BeaDataSet_def sampleLib_def sampleWorld_def
      datetime_now_def time_time_def Let_def)

theorem cache_round_trip_witness:
  "roundTrips sampleLib plainDataSet
   \<and> fst (writeDataSetsToFile sampleLib [plainDataSet] cacheName sampleWorld) = Inr ()
   \<and> readBeaDataSets sampleLib freshClient
        (snd (writeDataSetsToFile sampleLib [plainDataSet] cacheName sampleWorld)) cacheName
      = Some (Inr (Some [plainDataSet]), freshClient,
              time_sleep 2 (snd (datetime_now
                (snd (writeDataSetsToFile sampleLib [plainDataSet] cacheName sampleWorld)))))"
proof -
  let ?d = "\<lparr>year = 2024, month = 4, day = 10\<rparr>"
  let ?w1 = "snd (writeDataSetsToFile sampleLib [plainDataSet] cacheName sampleWorld)"
  have a: "\<forall>d \<in> set [plainDataSet]. roundTrips sampleLib d"
    using plain_roundTrips by simp
  have b: "datetime_now sampleWorld = (?d, sampleWorld\<lparr>now := 1, reads := 1\<rparr>)"
    by (simp add: datetime_now_def time_time_def sampleWorld_def Let_def)
  have c: "plainLine (strftime sampleLib ?d)"
    by (simp add: plainLine_def sampleLib_def LF_def CR_def)
  have d: "strptime sampleLib (strip (strftime sampleLib ?d)) = Some ?d"
    by (simp add: sampleLib_def strip_def isspace_def)
  have e: "writeDataSetsToFile sampleLib [plainDataSet] cacheName sampleWorld
             = (fst (writeDataSetsToFile sampleLib [plainDataSet] cacheName sampleWorld), ?w1)"
    by simp
  have g: "datetime_now ?w1 = (?d, snd (datetime_now ?w1))"
    unfolding write_plain_example snd_conv
    by (simp add: datetime_now_def time_time_def sampleWorld_def Let_def)
  from cache_round_trip[OF a b c d e refl g, of freshClient] plain_roundTrips
  show ?thesis by simp
qed

text \<open>
  The claim as stated fails for a name with whitespace at an end: the dataset
  named \<open>NIPA\<close> followed by a space is written and read back as \<open>NIPA\<close>.
\<close>

theorem cache_round_trip_counterexample:
  "fst (writeDataSetsToFile sampleLib [paddedDataSet] cacheName sampleWorld) = Inr ()
   \<and> map_option fst (readBeaDataSets sampleLib freshClient
        (snd (writeDataSetsToFile sampleLib [paddedDataSet] cacheName sampleWorld)) cacheName)
      = Some (Inr (Some [plainDataSet]))
   \<and> dataSetName paddedDataSet = PStr ''NIPA ''
   \<and> dataSetName plainDataSet = PStr ''NIPA''
   \<and> [plainDataSet] \<noteq> [paddedDataSet]"
  by (simp add: writeDataSetsToFile_def writeDataSet_def plusNewline_def strLine_def
      py_str_def plainDataSet_def paddedDataSet_def BeaDataSet_def sampleLib_def sampleWorld_def
      datetime_now_def time_time_def time_sleep_def Let_def
      readBeaDataSets_def lineAt_def strip_def isspace_def getFiscalQuarter_def parseList_def
      LF_def CR_def NUL_def cacheName_def)

end
